theory Spec2Isabelle
  imports Main
begin

chapter \<open>Model of the fetch-orchestration core\<close>

text \<open>
  The definitions follow the TypeScript sources: the server (\<^verbatim>\<open>server/src/index.ts\<close>),
  the SDK client (\<^verbatim>\<open>sdk/src/config.ts\<close>, which holds the configuration and the client) and
  the shared types (\<^verbatim>\<open>shared/src/types/farcaster.ts\<close>).
  JavaScript numbers that hold timestamps, counts, ids and limits are integers here
  (\<open>int\<close>); the non-integral and non-finite numbers are outside the model, apart from the
  \<^verbatim>\<open>Infinity\<close> limit of a fetch-all request, which is the value \<open>None\<close>. Strings are byte
  strings. An optional field of an object is an \<open>option\<close>; an exception is the \<open>Inl\<close>
  branch of a sum. \<^verbatim>\<open>Date.now()\<close>, the upstream provider and the HTTP transport are the
  environment: their answers are parameters of the functions that consult them.
\<close>

section \<open>JavaScript values\<close>

text \<open>
  A thrown value is an \<^verbatim>\<open>Error\<close> object with its \<^verbatim>\<open>name\<close> and its \<^verbatim>\<open>message\<close>, or anything
  else (\<open>Thrown\<close>, for which \<^verbatim>\<open>err instanceof Error\<close> is false).
\<close>

datatype js_error = Error (error_name: string) (message: string) | Thrown

text \<open>
  Truthiness of optional fields: \<^verbatim>\<open>undefined\<close>, \<^verbatim>\<open>false\<close>, \<^verbatim>\<open>0\<close> and the empty string are
  falsy. \<open>num_or\<close> and \<open>str_or_else\<close> are \<^verbatim>\<open>x || d\<close> for a number and for a string.
\<close>

definition truthy_bool :: "bool option \<Rightarrow> bool" where
  "truthy_bool b = (b = Some True)"

definition truthy_num :: "int option \<Rightarrow> bool" where
  "truthy_num x = (case x of None \<Rightarrow> False | Some n \<Rightarrow> n \<noteq> 0)"

definition truthy_str :: "string option \<Rightarrow> bool" where
  "truthy_str x = (case x of None \<Rightarrow> False | Some s \<Rightarrow> s \<noteq> [])"

definition num_or :: "int option \<Rightarrow> int \<Rightarrow> int" where
  "num_or x d = (case x of None \<Rightarrow> d | Some n \<Rightarrow> if n = 0 then d else n)"

definition str_or_else :: "string option \<Rightarrow> string \<Rightarrow> string" where
  "str_or_else x d = (case x of None \<Rightarrow> d | Some s \<Rightarrow> if s = [] then d else s)"

text \<open>\<^verbatim>\<open>Number.prototype.toString\<close> on an integer: decimal digits, with a minus sign.\<close>

definition digit_char :: "nat \<Rightarrow> char" where
  "digit_char d = ''0123456789'' ! (d mod 10)"

function nat_toString :: "nat \<Rightarrow> string" where
  "nat_toString n = (if n < 10 then [digit_char n] else nat_toString (n div 10) @ [digit_char n])"
  by pat_completeness auto
termination
  by (relation "measure id") auto

declare nat_toString.simps [simp del]

definition toString :: "int \<Rightarrow> string" where
  "toString i = (if i < 0 then CHR ''-'' # nat_toString (nat (- i)) else nat_toString (nat i))"

text \<open>\<^verbatim>\<open>String.prototype.toLowerCase\<close>, on the ASCII letters.\<close>

definition lower_char :: "char \<Rightarrow> char" where
  "lower_char c =
     (let n = (of_char c :: nat) in if 65 \<le> n \<and> n \<le> 90 then char_of (n + 32) else c)"

definition toLowerCase :: "string \<Rightarrow> string" where
  "toLowerCase s = map lower_char s"

text \<open>\<^verbatim>\<open>s.replace(/^@/, "")\<close>: one leading \<^verbatim>\<open>@\<close> is removed.\<close>

fun strip_at :: "string \<Rightarrow> string" where
  "strip_at [] = []"
| "strip_at (c # cs) = (if c = CHR ''@'' then cs else c # cs)"

text \<open>\<^verbatim>\<open>Array.prototype.join\<close> on strings.\<close>

fun join :: "string \<Rightarrow> string list \<Rightarrow> string" where
  "join sep [] = []"
| "join sep [x] = x"
| "join sep (x # y # ys) = x @ sep @ join sep (y # ys)"

text \<open>
  \<^verbatim>\<open>Array.prototype.slice(0, end)\<close> for an integer \<^verbatim>\<open>end\<close>: a negative end counts from the
  end of the array.
\<close>

definition slice0 :: "'a list \<Rightarrow> int \<Rightarrow> 'a list" where
  "slice0 xs e = (if e < 0 then take (nat (int (length xs) + e)) xs else take (nat e) xs)"

text \<open>\<^verbatim>\<open>[...new Set(xs)]\<close>: the distinct elements, each at its first occurrence.\<close>

fun dedup :: "'a list \<Rightarrow> 'a list" where
  "dedup [] = []"
| "dedup (x # xs) = x # dedup (filter (\<lambda>y. y \<noteq> x) xs)"

section \<open>Shared types (shared/src/types/farcaster.ts)\<close>

datatype SortOrder = newest | oldest

record FarcasterQueryParams =
  fid :: "int option"
  username :: "string option"
  limit :: "int option"
  sortOrder :: "SortOrder option"
  includeReplies :: "bool option"
  all :: "bool option"
  includeReactions :: "bool option"
  includeParents :: "bool option"

text \<open>The object with no field set, as in \<^verbatim>\<open>{}\<close>.\<close>

definition no_params :: FarcasterQueryParams where
  "no_params = \<lparr>fid = None, username = None, limit = None, sortOrder = None,
     includeReplies = None, all = None, includeReactions = None, includeParents = None\<rparr>"

section \<open>Pricing classifier of the SDK client (sdk/src/config.ts, lines 39-69)\<close>

definition FREE_TIER_maxLimit :: int where
  "FREE_TIER_maxLimit = 10"

definition isFreeTier :: "FarcasterQueryParams \<Rightarrow> bool" where
  "isFreeTier options =
     (let limit = num_or (limit options) 50
      in if limit > FREE_TIER_maxLimit then False
         else if truthy_bool (all options) then False
         else if truthy_bool (includeReplies options) then False
         else if truthy_bool (includeParents options) then False
         else True)"

definition getPricingFingerprint :: "FarcasterQueryParams \<Rightarrow> string" where
  "getPricingFingerprint options =
     (let parts =
        [str_or_else (map_option toString (fid options)) (str_or_else (username options) ''''),
         if truthy_bool (all options) then ''all'' else toString (num_or (limit options) 50),
         if truthy_bool (includeReplies options) then ''r'' else '''',
         if truthy_bool (includeParents options) then ''p'' else '''',
         if truthy_bool (includeReactions options) then ''x'' else '''']
      in join ''|'' parts)"

text \<open>
  The defaults a request is filled with, as the code fills them with \<^verbatim>\<open>x || default\<close>:
  limit 50, sort order \<open>newest\<close>, every boolean \<open>False\<close>. Two requests are semantically
  equal when they agree after this filling. The identifier fields have no default.
\<close>

definition fill_defaults :: "FarcasterQueryParams \<Rightarrow> FarcasterQueryParams" where
  "fill_defaults p =
     \<lparr>fid = fid p, username = username p,
      limit = Some (num_or (limit p) 50),
      sortOrder = Some (case sortOrder p of None \<Rightarrow> newest | Some s \<Rightarrow> s),
      includeReplies = Some (case includeReplies p of None \<Rightarrow> False | Some b \<Rightarrow> b),
      all = Some (case all p of None \<Rightarrow> False | Some b \<Rightarrow> b),
      includeReactions = Some (case includeReactions p of None \<Rightarrow> False | Some b \<Rightarrow> b),
      includeParents = Some (case includeParents p of None \<Rightarrow> False | Some b \<Rightarrow> b)\<rparr>"

section \<open>RateLimiter (server/src/index.ts, lines 33-83)\<close>

definition ENDPOINT_LIMIT :: nat where
  "ENDPOINT_LIMIT = 250"

definition GLOBAL_LIMIT :: nat where
  "GLOBAL_LIMIT = 450"

definition WINDOW_MS :: int where
  "WINDOW_MS = 60000"

record RateLimiter =
  endpointRequests :: "string \<rightharpoonup> int list"
  globalRequests :: "int list"

definition new_RateLimiter :: RateLimiter where
  "new_RateLimiter = \<lparr>endpointRequests = Map.empty, globalRequests = []\<rparr>"

text \<open>
  \<^verbatim>\<open>cleanOldRequests\<close> reads the clock itself; the reading is its first argument.
\<close>

definition cleanOldRequests :: "int \<Rightarrow> int list \<Rightarrow> int list" where
  "cleanOldRequests now requests = filter (\<lambda>timestamp. now - timestamp < WINDOW_MS) requests"

text \<open>
  One evaluation of the body of \<^verbatim>\<open>waitForSlot\<close> runs without interruption from its first
  line to its first \<^verbatim>\<open>await\<close> or to its end, and reads the clock three times: at entry
  (\<^verbatim>\<open>const now = Date.now()\<close>) and once in each of the two calls of
  \<^verbatim>\<open>cleanOldRequests\<close>.
\<close>

record reading =
  at_entry :: int
  at_global_clean :: int
  at_endpoint_clean :: int

text \<open>
  The evaluation either records the request (\<open>Admitted\<close>) or asks to sleep for a number of
  milliseconds before the next evaluation (\<open>Suspend\<close>). \<^verbatim>\<open>!oldestRequest\<close> holds for a
  missing first element and for the timestamp \<open>0\<close>.
\<close>

datatype verdict = Admitted | Suspend int

definition evaluate :: "reading \<Rightarrow> string \<Rightarrow> RateLimiter \<Rightarrow> verdict \<times> RateLimiter" where
  "evaluate r endpoint L =
     (let now = at_entry r;
          g = cleanOldRequests (at_global_clean r) (globalRequests L);
          endpointReqs = cleanOldRequests (at_endpoint_clean r)
            (case endpointRequests L endpoint of None \<Rightarrow> [] | Some xs \<Rightarrow> xs);
          L1 = \<lparr>endpointRequests = (endpointRequests L)(endpoint \<mapsto> endpointReqs),
                globalRequests = g\<rparr>;
          globalCount = length g;
          endpointCount = length endpointReqs
      in if globalCount \<ge> GLOBAL_LIMIT \<or> endpointCount \<ge> ENDPOINT_LIMIT then
           (let relevantRequests = (if globalCount \<ge> GLOBAL_LIMIT then g else endpointReqs)
            in case relevantRequests of
                 [] \<Rightarrow> (Suspend 1000, L1)
               | oldestRequest # _ \<Rightarrow>
                   if oldestRequest = 0 then (Suspend 1000, L1)
                   else (Suspend (WINDOW_MS - (now - oldestRequest) + 100), L1))
         else (Admitted,
               \<lparr>endpointRequests = (endpointRequests L)(endpoint \<mapsto> endpointReqs @ [now]),
                globalRequests = g @ [now]\<rparr>))"

text \<open>
  \<^verbatim>\<open>waitForSlot\<close> evaluates, sleeps and calls itself again until an evaluation admits
  it. The list holds the clock readings of its successive evaluations; \<open>None\<close> is a call
  that is still suspended when the readings end.
\<close>

fun waitForSlot :: "reading list \<Rightarrow> string \<Rightarrow> RateLimiter \<Rightarrow> RateLimiter option" where
  "waitForSlot [] endpoint L = None"
| "waitForSlot (r # rs) endpoint L =
     (case evaluate r endpoint L of
        (Admitted, L') \<Rightarrow> Some L'
      | (Suspend ms, L') \<Rightarrow> waitForSlot rs endpoint L')"

text \<open>
  Several callers share the limiter. Their evaluations interleave, one at a time; a run of
  the process is the sequence of all evaluations, each with its readings and its endpoint
  key. Beside the limiter, a run keeps the log of the admitted calls: endpoint key and
  recorded timestamp.
\<close>

type_synonym event = "reading \<times> string"

type_synonym admission = "string \<times> int"

definition step :: "event \<Rightarrow> RateLimiter \<times> admission list \<Rightarrow> RateLimiter \<times> admission list" where
  "step ev s =
     (case evaluate (fst ev) (snd ev) (fst s) of
        (Admitted, L') \<Rightarrow> (L', snd s @ [(snd ev, at_entry (fst ev))])
      | (Suspend ms, L') \<Rightarrow> (L', snd s))"

fun run :: "event list \<Rightarrow> RateLimiter \<times> admission list \<Rightarrow> RateLimiter \<times> admission list" where
  "run [] s = s"
| "run (ev # evs) s = run evs (step ev s)"

text \<open>The clock never goes back: \<open>c\<close> is the last reading before the events.\<close>

fun chronological :: "int \<Rightarrow> event list \<Rightarrow> bool" where
  "chronological c [] = True"
| "chronological c (ev # evs) =
     (c \<le> at_entry (fst ev) \<and> at_entry (fst ev) \<le> at_global_clean (fst ev)
      \<and> at_global_clean (fst ev) \<le> at_endpoint_clean (fst ev)
      \<and> chronological (at_endpoint_clean (fst ev)) evs)"

fun last_reading :: "int \<Rightarrow> event list \<Rightarrow> int" where
  "last_reading c [] = c"
| "last_reading c (ev # evs) = last_reading (at_endpoint_clean (fst ev)) evs"

text \<open>
  The admitted calls whose timestamps lie in the window that trails the time \<open>T\<close>: a
  timestamp is in the window when it is less than \<^verbatim>\<open>WINDOW_MS\<close> old, which is the test of
  \<^verbatim>\<open>cleanOldRequests\<close>.
\<close>

definition in_window :: "int \<Rightarrow> int \<Rightarrow> bool" where
  "in_window T timestamp = (T - timestamp < WINDOW_MS)"

definition admitted_global :: "int \<Rightarrow> admission list \<Rightarrow> int list" where
  "admitted_global T log = filter (in_window T) (map snd log)"

definition admitted_endpoint :: "string \<Rightarrow> int \<Rightarrow> admission list \<Rightarrow> int list" where
  "admitted_endpoint k T log = filter (in_window T) (map snd (filter (\<lambda>a. fst a = k) log))"

definition window_of :: "RateLimiter \<Rightarrow> string \<Rightarrow> int list" where
  "window_of L k = (case endpointRequests L k of None \<Rightarrow> [] | Some xs \<Rightarrow> xs)"

text \<open>
  The invariant of a run at clock \<open>c\<close>: both kinds of window are within their ceilings,
  and what the limiter has forgotten of the log is outside the window.
\<close>

definition limiter_inv :: "int \<Rightarrow> RateLimiter \<times> admission list \<Rightarrow> bool" where
  "limiter_inv c s =
     (length (globalRequests (fst s)) \<le> GLOBAL_LIMIT
      \<and> (\<forall>k. length (window_of (fst s) k) \<le> ENDPOINT_LIMIT)
      \<and> admitted_global c (snd s) = filter (in_window c) (globalRequests (fst s))
      \<and> (\<forall>k. admitted_endpoint k c (snd s) = filter (in_window c) (window_of (fst s) k)))"

section \<open>TTL cache of the server (server/src/index.ts, lines 17-31)\<close>

record 'a CacheEntry =
  data :: 'a
  expiry :: int

type_synonym 'a Cache = "string \<rightharpoonup> 'a CacheEntry"

text \<open>
  Both functions read the clock (first argument). \<^verbatim>\<open>getCached\<close> returns the cached value
  or \<^verbatim>\<open>null\<close> (\<open>None\<close>), and the cache as it leaves it; \<^verbatim>\<open>cache.delete(key)\<close> runs on a miss
  as well. The time to live of \<^verbatim>\<open>setCache\<close> is optional and defaults to 60000.
\<close>

definition getCached :: "int \<Rightarrow> string \<Rightarrow> 'a Cache \<Rightarrow> 'a option \<times> 'a Cache" where
  "getCached now key cache =
     (case cache key of
        None \<Rightarrow> (None, cache(key := None))
      | Some item \<Rightarrow>
          if now > expiry item then (None, cache(key := None))
          else (Some (data item), cache))"

definition setCache :: "int \<Rightarrow> string \<Rightarrow> 'a \<Rightarrow> int option \<Rightarrow> 'a Cache \<Rightarrow> 'a Cache" where
  "setCache now key d ttl cache =
     cache(key \<mapsto> \<lparr>data = d, expiry = now + (case ttl of None \<Rightarrow> 60000 | Some t \<Rightarrow> t)\<rparr>)"

section \<open>Fetching casts (server/src/index.ts, lines 115-130 and 150-225)\<close>

text \<open>
  A cast as the provider returns it, with the fields \<^verbatim>\<open>transformCast\<close> reads:
  \<^verbatim>\<open>author.fid\<close>, \<^verbatim>\<open>author.username\<close>, the \<^verbatim>\<open>url\<close> of each embed (\<^verbatim>\<open>embeds\<close> may be missing,
  and so may the \<^verbatim>\<open>url\<close> of an embed), and the two counts of \<^verbatim>\<open>reactions\<close>.
\<close>

record RawCast =
  raw_hash :: string
  raw_thread_hash :: string
  raw_parent_hash :: "string option"
  raw_author_fid :: int
  raw_author_username :: "string option"
  raw_text :: string
  raw_timestamp :: string
  raw_embeds :: "string option list option"
  raw_likes_count :: "int option"
  raw_recasts_count :: "int option"

text \<open>
  \<^verbatim>\<open>FarcasterCast\<close> of the shared types. An attachment and an embed are a pair of
  \<^verbatim>\<open>type\<close> and \<^verbatim>\<open>url\<close>. The type declares \<^verbatim>\<open>parentCast\<close> a cast; what the server stores
  there is what it reads from \<^verbatim>\<open>parentMap\<close>, a plain object: a cast, or the value of a
  property that \<^verbatim>\<open>parentMap\<close> inherits (\<open>Inherited\<close>, with the name of the property).
\<close>

datatype FarcasterCast = FarcasterCast
  (hash: string)
  (threadHash: string)
  (parentHash: "string option")
  (parentCast: "ParentValue option")
  (author_fid: int)
  (author_username: string)
  (cast_text: string)
  (timestamp: string)
  (attachments: "(string \<times> string) list")
  (embeds: "(string \<times> string option) list")
  (likes: int)
  (recasts: int)
and ParentValue = Cast FarcasterCast | Inherited string

text \<open>The assignment \<^verbatim>\<open>c.parentCast = p\<close>.\<close>

fun set_parentCast :: "ParentValue \<Rightarrow> FarcasterCast \<Rightarrow> FarcasterCast" where
  "set_parentCast p (FarcasterCast h th ph pc af au tx ts at em li re) =
     FarcasterCast h th ph (Some p) af au tx ts at em li re"

definition transformCast :: "RawCast \<Rightarrow> FarcasterCast" where
  "transformCast c =
     FarcasterCast
       (raw_hash c)
       (raw_thread_hash c)
       (if truthy_str (raw_parent_hash c) then raw_parent_hash c else None)
       None
       (raw_author_fid c)
       (str_or_else (raw_author_username c) '''')
       (raw_text c)
       (raw_timestamp c)
       []
       (case raw_embeds c of None \<Rightarrow> [] | Some es \<Rightarrow> map (\<lambda>url. (''url'', url)) es)
       (num_or (raw_likes_count c) 0)
       (num_or (raw_recasts_count c) 0)"

text \<open>
  The provider's answers to \<^verbatim>\<open>fetchCastsForUser\<close> for one user: a page fails, or it
  carries its casts (\<^verbatim>\<open>res.casts\<close>, possibly missing) and possibly a cursor
  (\<^verbatim>\<open>res.next.cursor\<close>) together with what the provider answers when that cursor is sent
  back. The dataset is fixed and has finitely many pages; pages arrive newest first.
\<close>

datatype Upstream =
  Fails js_error
| Page "RawCast list option" "(string \<times> Upstream) option"

text \<open>
  The pagination loop (lines 161-179). The limit is \<open>None\<close> for \<^verbatim>\<open>Infinity\<close>. A page is
  filtered and transformed, then appended; the loop goes on while the cursor is truthy and
  either everything is fetched or the accumulated count is below the limit. The calls of
  \<^verbatim>\<open>rateLimiter.waitForSlot\<close> before each request delay it and return nothing; the limiter
  is the subject of its own section.
\<close>

definition below_limit :: "nat \<Rightarrow> int option \<Rightarrow> bool" where
  "below_limit n lim = (case lim of None \<Rightarrow> True | Some l \<Rightarrow> int n < l)"

definition filtered_page :: "bool \<Rightarrow> RawCast list option \<Rightarrow> FarcasterCast list" where
  "filtered_page withReplies casts =
     map transformCast
       (filter (\<lambda>c. withReplies \<or> \<not> truthy_str (raw_parent_hash c))
          (case casts of None \<Rightarrow> [] | Some cs \<Rightarrow> cs))"

fun fetchPages ::
  "bool \<Rightarrow> int option \<Rightarrow> bool \<Rightarrow> Upstream \<Rightarrow> FarcasterCast list \<Rightarrow> js_error + FarcasterCast list"
where
  "fetchPages fetchAll lim withReplies (Fails err) allCasts = Inl err"
| "fetchPages fetchAll lim withReplies (Page casts None) allCasts =
     Inr (allCasts @ filtered_page withReplies casts)"
| "fetchPages fetchAll lim withReplies (Page casts (Some (cursor, rest))) allCasts =
     (let allCasts' = allCasts @ filtered_page withReplies casts
      in if cursor \<noteq> [] \<and> (fetchAll \<or> below_limit (length allCasts') lim)
         then fetchPages fetchAll lim withReplies rest allCasts'
         else Inr allCasts')"

text \<open>
  Parent resolution (lines 187-221). A lookup of one hash throws, or answers with or without
  a cast (\<^verbatim>\<open>res.cast\<close>). The \<^verbatim>\<open>try\<close>/\<^verbatim>\<open>catch\<close> around each lookup turns a throw into the
  pair of the hash and \<^verbatim>\<open>null\<close>. As in the page loop, the call of
  \<^verbatim>\<open>rateLimiter.waitForSlot\<close> before each lookup only delays it.
\<close>

datatype Lookup = Throws js_error | Found "RawCast option"

definition lookupParent :: "(string \<Rightarrow> Lookup) \<Rightarrow> string \<Rightarrow> string \<times> FarcasterCast option" where
  "lookupParent lookup h =
     (case lookup h of
        Throws err \<Rightarrow> (h, None)
      | Found None \<Rightarrow> (h, None)
      | Found (Some c) \<Rightarrow> (h, Some (transformCast c)))"

text \<open>
  \<^verbatim>\<open>parentMap\<close> is a plain object (\<^verbatim>\<open>Record<string, FarcasterCast> = {}\<close>): it has its own
  properties, all of them casts, and a prototype, which is \<^verbatim>\<open>Object.prototype\<close> (\<open>None\<close>)
  until an assignment to the key \<^verbatim>\<open>__proto__\<close> replaces it by the assigned cast. The
  properties of \<^verbatim>\<open>Object.prototype\<close> are the twelve below; all are functions but
  \<^verbatim>\<open>__proto__\<close>, an accessor that reads and sets the prototype of the object.
\<close>

record ParentMap =
  own_props :: "string \<rightharpoonup> FarcasterCast"
  prototype :: "FarcasterCast option"

definition empty_object :: ParentMap where
  "empty_object = \<lparr>own_props = Map.empty, prototype = None\<rparr>"

definition Object_prototype_names :: "string list" where
  "Object_prototype_names =
     [''constructor'', ''__defineGetter__'', ''__defineSetter__'', ''hasOwnProperty'',
      ''__lookupGetter__'', ''__lookupSetter__'', ''isPrototypeOf'', ''propertyIsEnumerable'',
      ''toString'', ''valueOf'', ''__proto__'', ''toLocaleString'']"

text \<open>\<^verbatim>\<open>parentMap[k] = c\<close>\<close>

definition assign_property :: "string \<Rightarrow> FarcasterCast \<Rightarrow> ParentMap \<Rightarrow> ParentMap" where
  "assign_property k c obj =
     (if k = ''__proto__'' then obj\<lparr>prototype := Some c\<rparr>
      else obj\<lparr>own_props := (own_props obj)(k \<mapsto> c)\<rparr>)"

text \<open>
  A cast object as \<^verbatim>\<open>transformCast\<close> builds it has nine properties. When it is the prototype
  of \<^verbatim>\<open>parentMap\<close>, a key that names one of them reads its value: \<open>Some\<close> with the
  truthiness of the value; \<open>None\<close> for any other key.
\<close>

definition cast_property_truthy :: "FarcasterCast \<Rightarrow> string \<Rightarrow> bool option" where
  "cast_property_truthy c k =
     (if k = ''hash'' then Some (hash c \<noteq> [])
      else if k = ''threadHash'' then Some (threadHash c \<noteq> [])
      else if k = ''parentHash'' then Some (truthy_str (parentHash c))
      else if k = ''author'' then Some True
      else if k = ''text'' then Some (cast_text c \<noteq> [])
      else if k = ''timestamp'' then Some (timestamp c \<noteq> [])
      else if k = ''attachments'' then Some True
      else if k = ''embeds'' then Some True
      else if k = ''reactions'' then Some True
      else None)"

text \<open>
  \<^verbatim>\<open>parentMap[k]\<close>, as the test \<^verbatim>\<open>c.parentHash && parentMap[c.parentHash]\<close> and the assignment
  after it use it: \<open>None\<close> when the value is falsy, the value otherwise. An own property
  comes first; \<^verbatim>\<open>__proto__\<close> reads the prototype; then the properties of a cast that is the
  prototype; then those of \<^verbatim>\<open>Object.prototype\<close>.
\<close>

definition read_property :: "ParentMap \<Rightarrow> string \<Rightarrow> ParentValue option" where
  "read_property obj k =
     (case own_props obj k of
        Some c \<Rightarrow> Some (Cast c)
      | None \<Rightarrow>
          if k = ''__proto__''
          then (case prototype obj of None \<Rightarrow> Some (Inherited k) | Some c \<Rightarrow> Some (Cast c))
          else (case Option.bind (prototype obj) (\<lambda>c. cast_property_truthy c k) of
                  Some truthy \<Rightarrow> if truthy then Some (Inherited k) else None
                | None \<Rightarrow>
                    if k \<in> set Object_prototype_names then Some (Inherited k) else None))"

definition mergeResults :: "(string \<times> FarcasterCast option) list \<Rightarrow> ParentMap \<Rightarrow> ParentMap" where
  "mergeResults results parentMap =
     fold (\<lambda>r obj. case snd r of None \<Rightarrow> obj | Some c \<Rightarrow> assign_property (fst r) c obj)
       results parentMap"

definition batchSize :: nat where
  "batchSize = 25"

function resolveBatches ::
  "(string \<Rightarrow> Lookup) \<Rightarrow> string list \<Rightarrow> nat \<Rightarrow> ParentMap \<Rightarrow> ParentMap"
where
  "resolveBatches lookup parentHashes i parentMap =
     (if i < length parentHashes then
        (let batch = take batchSize (drop i parentHashes);
             results = map (lookupParent lookup) batch
         in resolveBatches lookup parentHashes (i + batchSize) (mergeResults results parentMap))
      else parentMap)"
  by pat_completeness auto
termination
  by (relation "measure (\<lambda>(lookup, parentHashes, i, parentMap). length parentHashes - i)")
    (auto simp: batchSize_def)

declare resolveBatches.simps [simp del]

definition attachParents :: "(string \<Rightarrow> Lookup) \<Rightarrow> FarcasterCast list \<Rightarrow> FarcasterCast list" where
  "attachParents lookup allCasts =
     (let parentHashes = dedup (filter (\<lambda>h. h \<noteq> []) (List.map_filter parentHash allCasts));
          parentMap = resolveBatches lookup parentHashes 0 empty_object
      in map (\<lambda>c. case parentHash c of
                     None \<Rightarrow> c
                   | Some h \<Rightarrow>
                       if h = [] then c
                       else (case read_property parentMap h of
                               None \<Rightarrow> c
                             | Some p \<Rightarrow> set_parentCast p c))
           allCasts)"

text \<open>
  \<^verbatim>\<open>fetchCasts\<close>. Its first argument stands for the provider's answers for the \<^verbatim>\<open>fid\<close> and
  the \<^verbatim>\<open>includeReplies\<close> flag of the request, its second for the provider's cast lookup.
\<close>

definition fetchCasts ::
  "Upstream \<Rightarrow> (string \<Rightarrow> Lookup) \<Rightarrow> FarcasterQueryParams \<Rightarrow> js_error + FarcasterCast list"
where
  "fetchCasts upstream lookup params =
     (let fetchAll = (all params = Some True);
          lim = (if fetchAll then None else Some (num_or (limit params) 50));
          includeReplies = (includeReplies params = Some True);
          includeParents = (includeParents params = Some True);
          sortOrder = (case sortOrder params of None \<Rightarrow> newest | Some s \<Rightarrow> s)
      in case fetchPages fetchAll lim includeReplies upstream [] of
           Inl err \<Rightarrow> Inl err
         | Inr allCasts \<Rightarrow>
             (let sorted = (if sortOrder = oldest then rev allCasts else allCasts);
                  linked = (if includeParents then attachParents lookup sorted else sorted)
              in Inr (case lim of None \<Rightarrow> linked | Some l \<Rightarrow> slice0 linked l)))"


text \<open>
  The parent ids the provider sends are cast hashes, hexadecimal strings: none of them is
  the name of a property of \<^verbatim>\<open>Object.prototype\<close>.
\<close>

definition plain_parent_hashes :: "FarcasterCast list \<Rightarrow> bool" where
  "plain_parent_hashes cs =
     list_all (\<lambda>c. case parentHash c of
                       None \<Rightarrow> True
                     | Some h \<Rightarrow> h \<notin> set Object_prototype_names) cs"


text \<open>A provider cast for examples: a hash, possibly a parent hash, and fixed other fields.\<close>

definition sample_cast :: "string \<Rightarrow> string option \<Rightarrow> RawCast" where
  "sample_cast h p =
     \<lparr>raw_hash = h, raw_thread_hash = h, raw_parent_hash = p, raw_author_fid = 3,
      raw_author_username = Some ''alice'', raw_text = ''gm'', raw_timestamp = ''2024-01-01'',
      raw_embeds = None, raw_likes_count = None, raw_recasts_count = None\<rparr>"

section \<open>Identifier resolution and the request handler (server/src/index.ts)\<close>

text \<open>
  A user as the provider returns it, with the fields \<^verbatim>\<open>resolveFid\<close> and \<^verbatim>\<open>transformUser\<close>
  read (\<^verbatim>\<open>profile.bio.text\<close> is \<open>raw_bio_text\<close>), and \<^verbatim>\<open>FarcasterUser\<close> of the shared
  types.
\<close>

record RawUser =
  raw_fid :: int
  raw_username :: string
  raw_display_name :: "string option"
  raw_bio_text :: "string option"
  raw_pfp_url :: "string option"

record FarcasterUser =
  user_fid :: int
  user_username :: string
  displayName :: string
  bio :: string
  pfp :: string
  user_url :: string
  location :: string
  twitter :: string
  github :: string

record FarcasterResponse =
  resp_user :: FarcasterUser
  resp_casts :: "FarcasterCast list"
  resp_params :: FarcasterQueryParams

text \<open>
  The calls of the provider's client that the server makes. Each may throw.
  \<^verbatim>\<open>lookupUserByUsername\<close> answers with or without a user, \<^verbatim>\<open>fetchBulkUsers\<close> (asked for
  one fid) with or without a list of users; \<^verbatim>\<open>fetchCastsForUser\<close> depends on the fid and on
  the \<^verbatim>\<open>includeReplies\<close> flag it is sent.
\<close>

record Provider =
  lookupUserByUsername :: "string \<Rightarrow> js_error + RawUser option"
  fetchBulkUsers :: "int \<Rightarrow> js_error + RawUser list option"
  fetchCastsForUser :: "int \<Rightarrow> bool \<Rightarrow> Upstream"
  lookupCastByHashOrUrl :: "string \<Rightarrow> Lookup"

text \<open>
  \<^verbatim>\<open>resolveFid\<close> (lines 88-98) reads the clock in \<^verbatim>\<open>getCached\<close> and, after the lookup, in
  \<^verbatim>\<open>setCache\<close>. A cached fid is used when it is truthy.
\<close>

definition not_found :: "string \<Rightarrow> js_error" where
  "not_found who = Error ''Error'' (''User not found: '' @ who)"

definition resolveFid ::
  "Provider \<Rightarrow> int \<Rightarrow> int \<Rightarrow> string \<Rightarrow> int Cache \<Rightarrow> (js_error + int) \<times> int Cache"
where
  "resolveFid P t_get t_set name cache =
     (let normalized = strip_at (toLowerCase name);
          got = getCached t_get (''fid:'' @ normalized) cache;
          cached = fst got;
          cache1 = snd got;
          looked_up =
            (case lookupUserByUsername P normalized of
               Inl err \<Rightarrow> (Inl err, cache1)
             | Inr None \<Rightarrow> (Inl (not_found name), cache1)
             | Inr (Some u) \<Rightarrow>
                 if raw_fid u = 0 then (Inl (not_found name), cache1)
                 else (Inr (raw_fid u),
                       setCache t_set (''fid:'' @ normalized) (raw_fid u) (Some 300000) cache1))
      in case cached of
           None \<Rightarrow> looked_up
         | Some n \<Rightarrow> if n = 0 then looked_up else (Inr n, cache1))"

definition transformUser :: "RawUser \<Rightarrow> FarcasterUser" where
  "transformUser u =
     \<lparr>user_fid = raw_fid u,
      user_username = raw_username u,
      displayName = str_or_else (raw_display_name u) '''',
      bio = str_or_else (raw_bio_text u) '''',
      pfp = str_or_else (raw_pfp_url u) '''',
      user_url = '''', location = '''', twitter = '''', github = ''''\<rparr>"

text \<open>
  \<^verbatim>\<open>fetchUserData\<close> (lines 133-148). Its first argument is a number (\<open>Inl\<close>) or a
  string (\<open>Inr\<close>).
\<close>

definition fetchUserData ::
  "Provider \<Rightarrow> int \<Rightarrow> int \<Rightarrow> int + string \<Rightarrow> FarcasterQueryParams \<Rightarrow> int Cache
   \<Rightarrow> (js_error + FarcasterResponse) \<times> int Cache"
where
  "fetchUserData P t_get t_set fidOrUsername ps cache =
     (let resolved =
            (case fidOrUsername of
               Inl n \<Rightarrow> (Inr n, cache)
             | Inr name \<Rightarrow> resolveFid P t_get t_set name cache);
          cache1 = snd resolved
      in case fst resolved of
           Inl err \<Rightarrow> (Inl err, cache1)
         | Inr n \<Rightarrow>
             (case fetchBulkUsers P n of
                Inl err \<Rightarrow> (Inl err, cache1)
              | Inr None \<Rightarrow> (Inl (not_found (toString n)), cache1)
              | Inr (Some []) \<Rightarrow> (Inl (not_found (toString n)), cache1)
              | Inr (Some (u # us)) \<Rightarrow>
                  (case fetchCasts (fetchCastsForUser P n (includeReplies ps = Some True))
                          (lookupCastByHashOrUrl P) ps of
                     Inl err \<Rightarrow> (Inl err, cache1)
                   | Inr cs \<Rightarrow>
                       (Inr \<lparr>resp_user = transformUser u, resp_casts = cs, resp_params = ps\<rparr>,
                        cache1))))"

text \<open>\<^verbatim>\<open>formatTextOutput\<close> (lines 228-264); \<open>i\<close> is the index of the cast.\<close>

definition formatCast :: "bool \<Rightarrow> nat \<Rightarrow> FarcasterCast \<Rightarrow> string" where
  "formatCast withReactions i c =
     ''['' @ toString (int i + 1) @ ''] '' @ timestamp c @ ''\<newline>''
     @ (if truthy_str (parentHash c) then ''\<newline>[Reply]\<newline>'' else '''')
     @ cast_text c @ ''\<newline>''
     @ (if withReactions
        then ''\<newline>Reactions:\<newline>- Likes: '' @ toString (likes c) @ ''\<newline>''
             @ ''- Recasts: '' @ toString (recasts c) @ ''\<newline>''
        else '''')
     @ (let es = filter (\<lambda>e. truthy_str (snd e)) (embeds c)
        in if es \<noteq> []
           then ''\<newline>Embeds:\<newline>''
                @ join ''\<newline>'' (map (\<lambda>e. ''- '' @ str_or_else (snd e) '''') es) @ ''\<newline>''
           else '''')
     @ ''\<newline>---\<newline>\<newline>''"

definition formatTextOutput :: "FarcasterResponse \<Rightarrow> string" where
  "formatTextOutput d =
     (let u = resp_user d;
          cs = resp_casts d;
          withReactions = (includeReactions (resp_params d) = Some True)
      in ''Farcaster User Profile\<newline>===================\<newline>\<newline>''
         @ ''Username: '' @ user_username u @ ''\<newline>''
         @ ''Display Name: '' @ str_or_else (Some (displayName u)) ''N/A'' @ ''\<newline>''
         @ ''FID: '' @ toString (user_fid u) @ ''\<newline>''
         @ (if bio u \<noteq> [] then ''Bio: '' @ bio u @ ''\<newline>'' else '''')
         @ (if pfp u \<noteq> [] then ''Profile Picture: '' @ pfp u @ ''\<newline>'' else '''')
         @ ''\<newline>Posts\<newline>=====\<newline>\<newline>''
         @ (if cs = [] then ''No posts found.\<newline>''
            else concat (map (\<lambda>(i, c). formatCast withReactions i c) (enumerate 0 cs))))"

text \<open>
  The handler of \<^verbatim>\<open>GET /\<close> (lines 278-317). The query is the object of
  \<^verbatim>\<open>c.req.query()\<close>: the keys of the URL with their strings, in order; a key that occurs
  twice has its first string. \<^verbatim>\<open>Number\<close> applied to a string is a parameter of the
  handler: it answers with an integer or with \<^verbatim>\<open>NaN\<close> (\<open>None\<close>). A response is a status, a
  body and, for a redirect, a location.
\<close>

record HttpResponse =
  http_status :: int
  http_body :: string
  http_location :: "string option"

definition text_response :: "string \<Rightarrow> int \<Rightarrow> HttpResponse" where
  "text_response b s = \<lparr>http_status = s, http_body = b, http_location = None\<rparr>"

definition redirect :: "string \<Rightarrow> HttpResponse" where
  "redirect target = \<lparr>http_status = 302, http_body = '''', http_location = Some target\<rparr>"

text \<open>\<^verbatim>\<open>isNaN(Number(s)) || Number(s) <= 0\<close>\<close>

definition not_positive :: "(string \<Rightarrow> int option) \<Rightarrow> string \<Rightarrow> bool" where
  "not_positive number s = (case number s of None \<Rightarrow> True | Some n \<Rightarrow> n \<le> 0)"

text \<open>\<^verbatim>\<open>String(x).toLowerCase() === "true"\<close>\<close>

definition bool_param :: "string option \<Rightarrow> bool" where
  "bool_param x = (case x of None \<Rightarrow> False | Some s \<Rightarrow> toLowerCase s = ''true'')"

text \<open>
  The query after the handler has rewritten it (lines 286-307), as the typed object that
  \<^verbatim>\<open>fetchUserData\<close> reads: the fid as a number, the four flags as booleans, the username
  normalized when it is truthy. The limit stays a string and \<^verbatim>\<open>fetchCasts\<close> applies
  \<^verbatim>\<open>Number\<close> to it; a sort order that passed validation is one of the two words or falsy.
\<close>

definition parsed_params :: "(string \<Rightarrow> int option) \<Rightarrow> (string \<rightharpoonup> string) \<Rightarrow> FarcasterQueryParams" where
  "parsed_params number q =
     \<lparr>fid = (if truthy_str (q ''fid'') then Option.bind (q ''fid'') number else None),
      username = (if truthy_str (q ''username'')
                  then map_option (\<lambda>s. strip_at (toLowerCase s)) (q ''username'')
                  else q ''username''),
      limit = Option.bind (q ''limit'') number,
      sortOrder = (if q ''sortOrder'' = Some ''oldest'' then Some oldest
                   else if q ''sortOrder'' = Some ''newest'' then Some newest else None),
      includeReplies = Some (bool_param (q ''includeReplies'')),
      all = Some (bool_param (q ''all'')),
      includeReactions = Some (bool_param (q ''includeReactions'')),
      includeParents = Some (bool_param (q ''includeParents''))\<rparr>"

text \<open>The end of the handler: the formatted text, or what the \<^verbatim>\<open>catch\<close> clause answers.\<close>

definition respond :: "js_error + FarcasterResponse \<Rightarrow> HttpResponse" where
  "respond r =
     (case r of
        Inr d \<Rightarrow> text_response (formatTextOutput d) 200
      | Inl (Error n m) \<Rightarrow> text_response (''Error: '' @ m) 500
      | Inl Thrown \<Rightarrow> text_response (''Error: '' @ ''Unknown'') 500)"

definition handler ::
  "(string \<Rightarrow> int option) \<Rightarrow> Provider \<Rightarrow> int \<Rightarrow> int \<Rightarrow> (string \<times> string) list \<Rightarrow> int Cache
   \<Rightarrow> HttpResponse \<times> int Cache"
where
  "handler number P t_get t_set query cache =
     (let q = map_of query in
      if query = [] then (redirect ''https://llm-fid.fun'', cache)
      else if \<not> truthy_str (q ''fid'') \<and> \<not> truthy_str (q ''username'')
        then (text_response ''fid or username required'' 400, cache)
      else if truthy_str (q ''fid'') \<and> not_positive number (str_or_else (q ''fid'') '''')
        then (text_response ''Invalid FID'' 400, cache)
      else if truthy_str (q ''limit'') \<and> not_positive number (str_or_else (q ''limit'') '''')
        then (text_response ''Invalid limit'' 400, cache)
      else if truthy_str (q ''sortOrder'')
              \<and> q ''sortOrder'' \<noteq> Some ''newest'' \<and> q ''sortOrder'' \<noteq> Some ''oldest''
        then (text_response ''Invalid sortOrder (must be 'newest' or 'oldest')'' 400, cache)
      else
        (let ps = parsed_params number q;
             fidOrUsername =
               (case fid ps of
                  Some n \<Rightarrow> Inl n
                | None \<Rightarrow> Inr (str_or_else (username ps) ''''));
             fetched = fetchUserData P t_get t_set fidOrUsername ps cache
         in (respond (fst fetched), snd fetched)))"

text \<open>
  The two conditions under which \<^verbatim>\<open>resolveFid\<close> reports that a name does not resolve: the
  cache holds no live truthy fid for it, and the provider answers the lookup without a user
  or with a user whose fid is falsy.
\<close>

definition no_cached_fid :: "int \<Rightarrow> int Cache \<Rightarrow> string \<Rightarrow> bool" where
  "no_cached_fid t_get cache name =
     (case fst (getCached t_get (''fid:'' @ strip_at (toLowerCase name)) cache) of
        None \<Rightarrow> True
      | Some n \<Rightarrow> n = 0)"

definition reports_no_match :: "Provider \<Rightarrow> string \<Rightarrow> bool" where
  "reports_no_match P name =
     (case lookupUserByUsername P (strip_at (toLowerCase name)) of
        Inl err \<Rightarrow> False
      | Inr None \<Rightarrow> True
      | Inr (Some u) \<Rightarrow> raw_fid u = 0)"

text \<open>
  A provider for examples: it knows no user by name, answers every bulk request with one
  user, has a single empty page of casts and finds no cast by hash.
\<close>

definition sample_provider :: Provider where
  "sample_provider =
     \<lparr>lookupUserByUsername = (\<lambda>name. Inr None),
      fetchBulkUsers = (\<lambda>n. Inr (Some [\<lparr>raw_fid = n, raw_username = ''alice'',
         raw_display_name = None, raw_bio_text = None, raw_pfp_url = None\<rparr>])),
      fetchCastsForUser = (\<lambda>n withReplies. Page (Some []) None),
      lookupCastByHashOrUrl = (\<lambda>h. Found None)\<rparr>"

section \<open>The SDK client (sdk/src/config.ts)\<close>

text \<open>
  \<^verbatim>\<open>getDefaultBaseUrl\<close> looks at the process environment (absent in a browser) and at the
  host name of the window (absent outside a browser).
\<close>

record Runtime =
  process_env :: "(string \<rightharpoonup> string) option"
  window_hostname :: "string option"

definition endsWith :: "string \<Rightarrow> string \<Rightarrow> bool" where
  "endsWith s suffix =
     (length suffix \<le> length s \<and> drop (length s - length suffix) s = suffix)"

definition env_var :: "Runtime \<Rightarrow> string \<Rightarrow> string option" where
  "env_var rt k = (case process_env rt of None \<Rightarrow> None | Some env \<Rightarrow> env k)"

definition getDefaultBaseUrl :: "Runtime \<Rightarrow> string" where
  "getDefaultBaseUrl rt =
     (if truthy_str (env_var rt ''LLM_TXT_API_URL'')
      then str_or_else (env_var rt ''LLM_TXT_API_URL'') ''''
      else if (case window_hostname rt of
                 None \<Rightarrow> False
               | Some hostname \<Rightarrow>
                   hostname = ''localhost'' \<or> hostname = ''127.0.0.1''
                   \<or> endsWith hostname ''.local'')
      then ''http://localhost:3000''
      else if env_var rt ''NODE_ENV'' = Some ''development'' then ''http://localhost:3000''
      else ''https://api.llm-fid.fun'')"

definition DEFAULT_TIMEOUT :: int where
  "DEFAULT_TIMEOUT = 255000"

text \<open>
  \<^verbatim>\<open>URLSearchParams.prototype.toString\<close>: the pairs in insertion order, each name and value
  percent-encoded as a form field, byte by byte.
\<close>

definition hex_digit :: "nat \<Rightarrow> char" where
  "hex_digit d = ''0123456789ABCDEF'' ! (d mod 16)"

definition urlencode_char :: "char \<Rightarrow> string" where
  "urlencode_char c =
     (let n = (of_char c :: nat)
      in if n = 42 \<or> n = 45 \<or> n = 46 \<or> (48 \<le> n \<and> n \<le> 57) \<or> (65 \<le> n \<and> n \<le> 90)
            \<or> n = 95 \<or> (97 \<le> n \<and> n \<le> 122)
         then [c]
         else if n = 32 then ''+''
         else [CHR ''%'', hex_digit (n div 16), hex_digit n])"

definition urlencode :: "string \<Rightarrow> string" where
  "urlencode s = concat (map urlencode_char s)"

definition searchParams_toString :: "(string \<times> string) list \<Rightarrow> string" where
  "searchParams_toString ps = join ''&'' (map (\<lambda>p. urlencode (fst p) @ ''='' @ urlencode (snd p)) ps)"

definition sortOrder_name :: "SortOrder \<Rightarrow> string" where
  "sortOrder_name s = (case s of newest \<Rightarrow> ''newest'' | oldest \<Rightarrow> ''oldest'')"

definition buildQueryString :: "FarcasterQueryParams \<Rightarrow> string" where
  "buildQueryString options =
     searchParams_toString
       ((case fid options of
           None \<Rightarrow> []
         | Some n \<Rightarrow> if n = 0 then [] else [(''fid'', toString n)])
        @ (case username options of
             None \<Rightarrow> []
           | Some u \<Rightarrow> if u = [] then [] else [(''username'', strip_at (toLowerCase u))])
        @ (case limit options of
             None \<Rightarrow> []
           | Some l \<Rightarrow>
               if l \<noteq> 0 \<and> \<not> truthy_bool (all options) then [(''limit'', toString l)] else [])
        @ (if truthy_bool (all options) then [(''all'', ''true'')] else [])
        @ (if truthy_bool (includeReplies options) then [(''includeReplies'', ''true'')] else [])
        @ (if truthy_bool (includeParents options) then [(''includeParents'', ''true'')] else [])
        @ (case sortOrder options of
             None \<Rightarrow> []
           | Some s \<Rightarrow> if s \<noteq> newest then [(''sortOrder'', sortOrder_name s)] else [])
        @ (if truthy_bool (includeReactions options) then [(''includeReactions'', ''true'')]
           else []))"

text \<open>
  The transport. A request is its URL and its \<^verbatim>\<open>Accept\<close> header. A reply carries its
  status and its \<^verbatim>\<open>ok\<close> flag; reading its body as text or as the JSON of an estimate may
  throw. A fetch function takes the state of the world outside the client, and returns a
  reply or throws, and the state it leaves: a network request is a step of that state.
\<close>

record ServerEstimate =
  price :: string
  isFree :: bool
  castCount :: "int option"

record HttpReply =
  reply_status :: int
  reply_ok :: bool
  reply_text :: "js_error + string"
  reply_json :: "js_error + ServerEstimate"

record Request =
  req_url :: string
  req_accept :: string

type_synonym 'w FetchFn = "Request \<Rightarrow> 'w \<Rightarrow> (js_error + HttpReply) \<times> 'w"

record FetchResult =
  result_text :: string
  result_status :: int

text \<open>
  The configuration and the client. The signer is any value; the payment wrapper of the
  x402 library (\<^verbatim>\<open>wrapFetchWithPayment\<close> on a client registered with the signer) is a
  parameter of the constructor, as are the runtime and the global \<^verbatim>\<open>fetch\<close>.
\<close>

record ('w, 's) LlmFidConfig =
  cfg_baseUrl :: "string option"
  cfg_timeout :: "int option"
  cfg_signer :: "'s option"
  cfg_fetch :: "'w FetchFn option"

record 'w LlmFidClient =
  baseUrl :: string
  timeout :: int
  fetchFn :: "'w FetchFn"
  baseFetchFn :: "'w FetchFn"
  hasSigner :: bool
  estimateCache :: "string \<rightharpoonup> ServerEstimate \<times> int"

definition ESTIMATE_CACHE_TTL :: int where
  "ESTIMATE_CACHE_TTL = 60000"

definition new_LlmFidClient ::
  "Runtime \<Rightarrow> 'w FetchFn \<Rightarrow> ('w FetchFn \<Rightarrow> 's \<Rightarrow> 'w FetchFn) \<Rightarrow> ('w, 's) LlmFidConfig
   \<Rightarrow> 'w LlmFidClient"
where
  "new_LlmFidClient rt globalFetch createPaymentFetch config =
     (let base = (case cfg_fetch config of None \<Rightarrow> globalFetch | Some f \<Rightarrow> f)
      in \<lparr>baseUrl = str_or_else (cfg_baseUrl config) (getDefaultBaseUrl rt),
          timeout = num_or (cfg_timeout config) DEFAULT_TIMEOUT,
          fetchFn = (case cfg_signer config of
                       None \<Rightarrow> base
                     | Some signer \<Rightarrow> createPaymentFetch base signer),
          baseFetchFn = base,
          hasSigner = (cfg_signer config \<noteq> None),
          estimateCache = Map.empty\<rparr>)"

text \<open>
  \<^verbatim>\<open>LlmFidClient.fetch\<close> (lines 188-226). The \<^verbatim>\<open>catch\<close> clause replaces an error named
  \<^verbatim>\<open>AbortError\<close>, which the abort of the timeout raises in the transport, and throws every
  other error again.
\<close>

definition rethrow :: "js_error \<Rightarrow> js_error" where
  "rethrow err =
     (case err of
        Error n m \<Rightarrow>
          if n = ''AbortError''
          then Error ''Error''
                 ''Request timed out. Try reducing the number of posts or disable 'Fetch All'.''
          else err
      | Thrown \<Rightarrow> err)"

definition client_fetch ::
  "'w LlmFidClient \<Rightarrow> FarcasterQueryParams \<Rightarrow> 'w \<Rightarrow> (js_error + FetchResult) \<times> 'w"
where
  "client_fetch client options w =
     (if \<not> truthy_num (fid options) \<and> \<not> truthy_str (username options)
      then (Inl (Error ''Error'' ''Either fid or username is required''), w)
      else
        (let queryString = buildQueryString options;
             target = baseUrl client @ ''?'' @ queryString;
             sent = fetchFn client \<lparr>req_url = target, req_accept = ''text/plain''\<rparr> w
         in case fst sent of
              Inl err \<Rightarrow> (Inl (rethrow err), snd sent)
            | Inr response \<Rightarrow>
                (case reply_text response of
                   Inl err \<Rightarrow> (Inl (rethrow err), snd sent)
                 | Inr body \<Rightarrow>
                     (Inr \<lparr>result_text = body, result_status = reply_status response\<rparr>,
                      snd sent))))"

definition getUrl :: "'w LlmFidClient \<Rightarrow> FarcasterQueryParams \<Rightarrow> string" where
  "getUrl client options = baseUrl client @ ''?'' @ buildQueryString options"

text \<open>
  \<^verbatim>\<open>LlmFidClient.getServerEstimate\<close> (lines 243-274) reads the clock when it checks the
  cache and again when it stores a fresh estimate. Everything from the query string to the
  store is inside \<^verbatim>\<open>try\<close>, and the \<^verbatim>\<open>catch\<close> clause returns \<^verbatim>\<open>null\<close>. The result is the
  returned estimate or \<^verbatim>\<open>null\<close> (\<open>Inr\<close>) or a thrown error (\<open>Inl\<close>), the client with its
  cache, and the world.
\<close>

definition getServerEstimate ::
  "'w LlmFidClient \<Rightarrow> int \<Rightarrow> int \<Rightarrow> FarcasterQueryParams \<Rightarrow> 'w
   \<Rightarrow> (js_error + ServerEstimate option) \<times> 'w LlmFidClient \<times> 'w"
where
  "getServerEstimate client t_check t_store options w =
     (if isFreeTier options
      then (Inr (Some \<lparr>price = ''$0'', isFree = True, castCount = None\<rparr>), client, w)
      else
        (let fingerprint = getPricingFingerprint options;
             cached = estimateCache client fingerprint;
             requested =
               (let queryString = buildQueryString options;
                    sent = baseFetchFn client
                             \<lparr>req_url = baseUrl client @ ''/estimate?'' @ queryString,
                              req_accept = ''application/json''\<rparr> w
                in case fst sent of
                     Inl err \<Rightarrow> (Inr None, client, snd sent)
                   | Inr response \<Rightarrow>
                       if \<not> reply_ok response then (Inr None, client, snd sent)
                       else (case reply_json response of
                               Inl err \<Rightarrow> (Inr None, client, snd sent)
                             | Inr estimate \<Rightarrow>
                                 (Inr (Some estimate),
                                  client\<lparr>estimateCache :=
                                    (estimateCache client)(fingerprint \<mapsto> (estimate, t_store))\<rparr>,
                                  snd sent)))
         in case cached of
              None \<Rightarrow> requested
            | Some hit \<Rightarrow>
                if t_check - snd hit < ESTIMATE_CACHE_TTL then (Inr (Some (fst hit)), client, w)
                else requested))"

text \<open>A transport for examples: the world counts the requests, every reply is the given one.\<close>

definition counting_fetch :: "HttpReply \<Rightarrow> nat FetchFn" where
  "counting_fetch reply request n = (Inr reply, Suc n)"

definition payment_required :: HttpReply where
  "payment_required =
     \<lparr>reply_status = 402, reply_ok = False, reply_text = Inr ''Payment Required'',
      reply_json = Inl Thrown\<rparr>"

definition no_config :: "(nat, unit) LlmFidConfig" where
  "no_config = \<lparr>cfg_baseUrl = None, cfg_timeout = None, cfg_signer = None, cfg_fetch = None\<rparr>"

definition browser :: Runtime where
  "browser = \<lparr>process_env = None, window_hostname = Some ''llm-fid.fun''\<rparr>"

chapter \<open>Properties\<close>

section \<open>The rate limiter keeps both ceilings\<close>

lemma in_window_mono: "c \<le> c' \<Longrightarrow> in_window c' t \<Longrightarrow> in_window c t"
  by (simp add: in_window_def)

lemma filter_window_later:
  "c \<le> c' \<Longrightarrow> filter (in_window c') (filter (in_window c) xs) = filter (in_window c') xs"
  by (induction xs) (auto dest: in_window_mono)

lemma filter_window_transfer:
  assumes "c \<le> c'" and "filter (in_window c) xs = filter (in_window c) ys"
  shows "filter (in_window c') xs = filter (in_window c') ys"
proof -
  have "filter (in_window c') xs = filter (in_window c') (filter (in_window c) xs)"
    using assms(1) by (simp only: filter_window_later)
  also have "\<dots> = filter (in_window c') (filter (in_window c) ys)"
    by (simp only: assms(2))
  also have "\<dots> = filter (in_window c') ys"
    using assms(1) by (simp only: filter_window_later)
  finally show ?thesis .
qed

lemma cleanOldRequests_window: "cleanOldRequests n xs = filter (in_window n) xs"
  unfolding cleanOldRequests_def by (rule filter_cong) (simp_all add: in_window_def)

lemma evaluate_admit:
  assumes "length (cleanOldRequests (at_global_clean r) (globalRequests L)) < GLOBAL_LIMIT"
    and "length (cleanOldRequests (at_endpoint_clean r) (window_of L e)) < ENDPOINT_LIMIT"
  shows "evaluate r e L =
    (Admitted,
     \<lparr>endpointRequests = (endpointRequests L)(e \<mapsto>
        cleanOldRequests (at_endpoint_clean r) (window_of L e) @ [at_entry r]),
      globalRequests = cleanOldRequests (at_global_clean r) (globalRequests L) @ [at_entry r]\<rparr>)"
  using assms unfolding evaluate_def Let_def window_of_def by (simp add: not_le[symmetric])

lemma evaluate_suspend:
  assumes "GLOBAL_LIMIT \<le> length (cleanOldRequests (at_global_clean r) (globalRequests L))
    \<or> ENDPOINT_LIMIT \<le> length (cleanOldRequests (at_endpoint_clean r) (window_of L e))"
  shows "\<exists>ms. evaluate r e L =
    (Suspend ms,
     \<lparr>endpointRequests = (endpointRequests L)(e \<mapsto>
        cleanOldRequests (at_endpoint_clean r) (window_of L e)),
      globalRequests = cleanOldRequests (at_global_clean r) (globalRequests L)\<rparr>)"
proof -
  define g where "g = cleanOldRequests (at_global_clean r) (globalRequests L)"
  define w where "w = cleanOldRequests (at_endpoint_clean r) (window_of L e)"
  define L1 where "L1 = \<lparr>endpointRequests = (endpointRequests L)(e \<mapsto> w), globalRequests = g\<rparr>"
  define rel where "rel = (if GLOBAL_LIMIT \<le> length g then g else w)"
  have full: "GLOBAL_LIMIT \<le> length g \<or> ENDPOINT_LIMIT \<le> length w"
    using assms by (simp only: g_def w_def)
  have ev: "evaluate r e L =
    (case rel of [] \<Rightarrow> (Suspend 1000, L1)
     | oldestRequest # x \<Rightarrow> if oldestRequest = 0 then (Suspend 1000, L1)
        else (Suspend (WINDOW_MS - (at_entry r - oldestRequest) + 100), L1))"
    unfolding evaluate_def Let_def window_of_def[symmetric] g_def[symmetric] w_def[symmetric]
      L1_def[symmetric] rel_def[symmetric]
    using full by (simp only: if_True)
  have "\<exists>ms. evaluate r e L = (Suspend ms, L1)"
  proof (cases rel)
    case Nil
    show ?thesis unfolding ev Nil by (simp only: list.case) blast
  next
    case (Cons a as)
    show ?thesis unfolding ev Cons by (cases "a = 0") simp_all
  qed
  then show ?thesis by (simp only: L1_def g_def w_def)
qed

lemma evaluate_outcome:
  assumes "evaluate r e L = (v, L')"
  defines "g \<equiv> cleanOldRequests (at_global_clean r) (globalRequests L)"
  defines "w \<equiv> cleanOldRequests (at_endpoint_clean r) (window_of L e)"
  shows "(v = Admitted \<and> length g < GLOBAL_LIMIT \<and> length w < ENDPOINT_LIMIT
           \<and> globalRequests L' = g @ [at_entry r]
           \<and> endpointRequests L' = (endpointRequests L)(e \<mapsto> w @ [at_entry r]))
         \<or> ((\<exists>ms. v = Suspend ms) \<and> (GLOBAL_LIMIT \<le> length g \<or> ENDPOINT_LIMIT \<le> length w)
           \<and> globalRequests L' = g
           \<and> endpointRequests L' = (endpointRequests L)(e \<mapsto> w))"
proof (cases "length g < GLOBAL_LIMIT \<and> length w < ENDPOINT_LIMIT")
  case True
  then have "evaluate r e L = (Admitted,
     \<lparr>endpointRequests = (endpointRequests L)(e \<mapsto> w @ [at_entry r]),
      globalRequests = g @ [at_entry r]\<rparr>)"
    unfolding g_def w_def by (intro evaluate_admit) simp_all
  then have "v = Admitted"
    and "L' = \<lparr>endpointRequests = (endpointRequests L)(e \<mapsto> w @ [at_entry r]),
      globalRequests = g @ [at_entry r]\<rparr>"
    using assms(1) by simp_all
  then have "v = Admitted" "globalRequests L' = g @ [at_entry r]"
    "endpointRequests L' = (endpointRequests L)(e \<mapsto> w @ [at_entry r])"
    by simp_all
  with True show ?thesis by blast
next
  case False
  then have full: "GLOBAL_LIMIT \<le> length g \<or> ENDPOINT_LIMIT \<le> length w" by auto
  from evaluate_suspend[OF this[unfolded g_def w_def]] obtain ms where
    "evaluate r e L = (Suspend ms,
       \<lparr>endpointRequests = (endpointRequests L)(e \<mapsto> w), globalRequests = g\<rparr>)"
    unfolding g_def w_def by blast
  then have "v = Suspend ms"
    and "L' = \<lparr>endpointRequests = (endpointRequests L)(e \<mapsto> w), globalRequests = g\<rparr>"
    using assms(1) by simp_all
  then have "v = Suspend ms" "globalRequests L' = g"
    "endpointRequests L' = (endpointRequests L)(e \<mapsto> w)"
    by simp_all
  with full show ?thesis by blast
qed

lemma window_of_upd:
  "endpointRequests L' = (endpointRequests L)(e \<mapsto> w) \<Longrightarrow>
   window_of L' k = (if k = e then w else window_of L k)"
  by (simp add: window_of_def)

lemma step_inv:
  assumes inv: "limiter_inv c s"
    and t1: "c \<le> at_entry r" and t2: "at_entry r \<le> at_global_clean r"
    and t3: "at_global_clean r \<le> at_endpoint_clean r"
  shows "limiter_inv (at_endpoint_clean r) (step (r, e) s)"
proof -
  obtain L log where s: "s = (L, log)" by (cases s)
  obtain v L' where ev: "evaluate r e L = (v, L')" by (cases "evaluate r e L")
  define c' where "c' = at_endpoint_clean r"
  define g where "g = cleanOldRequests (at_global_clean r) (globalRequests L)"
  define w where "w = cleanOldRequests (at_endpoint_clean r) (window_of L e)"
  have cc': "c \<le> c'" and gc': "at_global_clean r \<le> c'" and nc': "at_entry r \<le> c'"
    using t1 t2 t3 by (simp_all add: c'_def)
  have lenG: "length (globalRequests L) \<le> GLOBAL_LIMIT"
    and lenW: "\<And>k. length (window_of L k) \<le> ENDPOINT_LIMIT"
    and logG: "admitted_global c log = filter (in_window c) (globalRequests L)"
    and logW: "\<And>k. admitted_endpoint k c log = filter (in_window c) (window_of L k)"
    using inv by (simp_all add: limiter_inv_def s)
  have lg: "length g \<le> GLOBAL_LIMIT"
    using lenG by (simp add: g_def cleanOldRequests_def le_trans[OF length_filter_le])
  have lw: "length w \<le> ENDPOINT_LIMIT"
    using lenW[of e] by (simp add: w_def cleanOldRequests_def le_trans[OF length_filter_le])
  have G': "admitted_global c' log = filter (in_window c') g"
  proof -
    have "admitted_global c' log = filter (in_window c') (globalRequests L)"
      using filter_window_transfer[OF cc' logG[unfolded admitted_global_def]]
      by (simp add: admitted_global_def)
    also have "\<dots> = filter (in_window c') g"
      by (simp only: g_def cleanOldRequests_window filter_window_later[OF gc'])
    finally show ?thesis .
  qed
  have W0: "\<And>k. admitted_endpoint k c' log = filter (in_window c') (window_of L k)"
    using filter_window_transfer[OF cc' logW[unfolded admitted_endpoint_def]]
    by (simp add: admitted_endpoint_def)
  have We: "admitted_endpoint e c' log = filter (in_window c') w"
    using W0[of e] by (simp only: w_def cleanOldRequests_window c'_def filter_window_later[OF order_refl])
  from evaluate_outcome[OF ev] consider
    (admit) "v = Admitted" "length g < GLOBAL_LIMIT" "length w < ENDPOINT_LIMIT"
      "globalRequests L' = g @ [at_entry r]"
      "endpointRequests L' = (endpointRequests L)(e \<mapsto> w @ [at_entry r])"
    | (suspend) ms where "v = Suspend ms" "globalRequests L' = g"
      "endpointRequests L' = (endpointRequests L)(e \<mapsto> w)"
    unfolding g_def w_def by blast
  then show ?thesis
  proof cases
    case admit
    have st: "step (r, e) s = (L', log @ [(e, at_entry r)])"
      by (simp add: step_def s ev admit(1))
    have wo: "\<And>k. window_of L' k = (if k = e then w @ [at_entry r] else window_of L k)"
      using window_of_upd[OF admit(5)] by simp
    have 1: "length (globalRequests L') \<le> GLOBAL_LIMIT"
      using admit(2) by (simp add: admit(4))
    have 2: "\<And>k. length (window_of L' k) \<le> ENDPOINT_LIMIT"
      using admit(3) lenW by (simp add: wo)
    have 3: "admitted_global c' (log @ [(e, at_entry r)]) = filter (in_window c') (globalRequests L')"
      using G' by (simp add: admitted_global_def admit(4))
    have 4: "\<And>k. admitted_endpoint k c' (log @ [(e, at_entry r)]) = filter (in_window c') (window_of L' k)"
      using We W0 by (simp add: admitted_endpoint_def wo)
    show ?thesis
      unfolding limiter_inv_def st c'_def[symmetric] using 1 2 3 4 by simp
  next
    case suspend
    have st: "step (r, e) s = (L', log)"
      by (simp add: step_def s ev suspend(1))
    have wo: "\<And>k. window_of L' k = (if k = e then w else window_of L k)"
      using window_of_upd[OF suspend(3)] by simp
    have 1: "length (globalRequests L') \<le> GLOBAL_LIMIT"
      using lg by (simp add: suspend(2))
    have 2: "\<And>k. length (window_of L' k) \<le> ENDPOINT_LIMIT"
      using lw lenW by (simp add: wo)
    have 3: "admitted_global c' log = filter (in_window c') (globalRequests L')"
      using G' by (simp add: suspend(2))
    have 4: "\<And>k. admitted_endpoint k c' log = filter (in_window c') (window_of L' k)"
      using We W0 by (simp add: wo)
    show ?thesis
      unfolding limiter_inv_def st c'_def[symmetric] using 1 2 3 4 by simp
  qed
qed

lemma run_inv:
  "limiter_inv c s \<Longrightarrow> chronological c evs \<Longrightarrow> limiter_inv (last_reading c evs) (run evs s)"
proof (induction evs arbitrary: c s)
  case Nil
  then show ?case by simp
next
  case (Cons ev evs)
  obtain r e where ev: "ev = (r, e)" by (cases ev)
  have ch: "c \<le> at_entry r" "at_entry r \<le> at_global_clean r"
    "at_global_clean r \<le> at_endpoint_clean r" "chronological (at_endpoint_clean r) evs"
    using Cons.prems(2) by (simp_all add: ev)
  have "limiter_inv (at_endpoint_clean r) (step (r, e) s)"
    using Cons.prems(1) ch(1-3) by (rule step_inv)
  then show ?case
    using Cons.IH[of "at_endpoint_clean r" "step (r, e) s"] ch(4) by (simp add: ev)
qed

lemma init_inv: "limiter_inv c (new_RateLimiter, [])"
  by (simp add: limiter_inv_def new_RateLimiter_def window_of_def admitted_global_def admitted_endpoint_def)

lemma inv_bound_global:
  assumes "limiter_inv c s" "c \<le> T"
  shows "length (admitted_global T (snd s)) \<le> GLOBAL_LIMIT"
proof -
  have "admitted_global T (snd s) = filter (in_window T) (globalRequests (fst s))"
  proof -
    have "admitted_global c (snd s) = filter (in_window c) (globalRequests (fst s))"
      using assms(1) by (simp add: limiter_inv_def)
    then show ?thesis
      unfolding admitted_global_def using assms(2) by (rule filter_window_transfer[rotated])
  qed
  then show ?thesis
    using assms(1) by (simp add: limiter_inv_def le_trans[OF length_filter_le])
qed

lemma inv_bound_endpoint:
  assumes "limiter_inv c s" "c \<le> T"
  shows "length (admitted_endpoint k T (snd s)) \<le> ENDPOINT_LIMIT"
proof -
  have "admitted_endpoint k c (snd s) = filter (in_window c) (window_of (fst s) k)"
    using assms(1) by (simp add: limiter_inv_def)
  then have "admitted_endpoint k T (snd s) = filter (in_window T) (window_of (fst s) k)"
    unfolding admitted_endpoint_def using assms(2) by (rule filter_window_transfer[rotated])
  moreover have "length (window_of (fst s) k) \<le> ENDPOINT_LIMIT"
    using assms(1) by (simp add: limiter_inv_def)
  ultimately show ?thesis
    by (simp add: le_trans[OF length_filter_le])
qed

lemma waitForSlot_admitted:
  "waitForSlot rs e L = Some L' \<Longrightarrow> \<exists>r L0. r \<in> set rs \<and> evaluate r e L0 = (Admitted, L')"
proof (induction rs arbitrary: L)
  case Nil
  then show ?case by simp
next
  case (Cons r rs)
  obtain v L1 where ev: "evaluate r e L = (v, L1)" by (cases "evaluate r e L")
  show ?case
  proof (cases v)
    case Admitted
    then have "L' = L1" using Cons.prems ev by simp
    then show ?thesis using ev Admitted by auto
  next
    case (Suspend ms)
    then have "waitForSlot rs e L1 = Some L'" using Cons.prems ev by simp
    from Cons.IH[OF this] show ?thesis by auto
  qed
qed

lemma evaluate_admitted_bounds:
  assumes "evaluate r e L0 = (Admitted, L')"
  shows "length (globalRequests L') \<le> GLOBAL_LIMIT \<and> length (window_of L' e) \<le> ENDPOINT_LIMIT
         \<and> last (globalRequests L') = at_entry r \<and> last (window_of L' e) = at_entry r"
  using evaluate_outcome[OF assms] by (auto simp: window_of_def)

text \<open>
  Claim C1. Take any run of the limiter from its initial state in which the clock never goes
  back, and any time \<open>T\<close> from the last reading on. The admitted calls whose
  timestamps lie within the 60 seconds that trail \<open>T\<close> number at most 450, and those of
  any one endpoint key at most 250. An evaluation admits exactly when both windows, pruned
  first, are below their ceilings; otherwise it records nothing, keeps the pruned windows
  and \<^verbatim>\<open>waitForSlot\<close> starts over on the next reading; and whenever
  \<^verbatim>\<open>waitForSlot\<close> returns, the windows it leaves are within the ceilings and end
  with the timestamp of one of its evaluations.
\<close>

theorem rate_limiter_window_ceilings:
  assumes "chronological c0 evs" and "last_reading c0 evs \<le> T"
  shows "length (admitted_global T (snd (run evs (new_RateLimiter, [])))) \<le> GLOBAL_LIMIT
       \<and> length (admitted_endpoint k T (snd (run evs (new_RateLimiter, [])))) \<le> ENDPOINT_LIMIT
       \<and> (fst (evaluate r e L) = Admitted \<longleftrightarrow>
            length (cleanOldRequests (at_global_clean r) (globalRequests L)) < GLOBAL_LIMIT
            \<and> length (cleanOldRequests (at_endpoint_clean r) (window_of L e)) < ENDPOINT_LIMIT)
       \<and> (fst (evaluate r e L) \<noteq> Admitted \<longrightarrow>
            globalRequests (snd (evaluate r e L))
              = cleanOldRequests (at_global_clean r) (globalRequests L)
            \<and> window_of (snd (evaluate r e L)) e
              = cleanOldRequests (at_endpoint_clean r) (window_of L e)
            \<and> waitForSlot (r # rs) e L = waitForSlot rs e (snd (evaluate r e L)))
       \<and> (waitForSlot rs e L = Some L' \<longrightarrow>
            length (globalRequests L') \<le> GLOBAL_LIMIT \<and> length (window_of L' e) \<le> ENDPOINT_LIMIT
            \<and> last (globalRequests L') \<in> at_entry ` set rs)"
proof -
  have inv: "limiter_inv (last_reading c0 evs) (run evs (new_RateLimiter, []))"
    using init_inv assms(1) by (rule run_inv)
  have A: "length (admitted_global T (snd (run evs (new_RateLimiter, [])))) \<le> GLOBAL_LIMIT"
    using inv assms(2) by (rule inv_bound_global)
  have B: "length (admitted_endpoint k T (snd (run evs (new_RateLimiter, [])))) \<le> ENDPOINT_LIMIT"
    using inv assms(2) by (rule inv_bound_endpoint)
  obtain v L1 where ev: "evaluate r e L = (v, L1)" by (cases "evaluate r e L")
  have C: "fst (evaluate r e L) = Admitted \<longleftrightarrow>
            length (cleanOldRequests (at_global_clean r) (globalRequests L)) < GLOBAL_LIMIT
            \<and> length (cleanOldRequests (at_endpoint_clean r) (window_of L e)) < ENDPOINT_LIMIT"
    using evaluate_outcome[OF ev] by (auto simp: ev)
  have D: "fst (evaluate r e L) \<noteq> Admitted \<longrightarrow>
            globalRequests (snd (evaluate r e L))
              = cleanOldRequests (at_global_clean r) (globalRequests L)
            \<and> window_of (snd (evaluate r e L)) e
              = cleanOldRequests (at_endpoint_clean r) (window_of L e)
            \<and> waitForSlot (r # rs) e L = waitForSlot rs e (snd (evaluate r e L))"
    using evaluate_outcome[OF ev] by (auto simp: ev window_of_def)
  have E: "waitForSlot rs e L = Some L' \<longrightarrow>
            length (globalRequests L') \<le> GLOBAL_LIMIT \<and> length (window_of L' e) \<le> ENDPOINT_LIMIT
            \<and> last (globalRequests L') \<in> at_entry ` set rs"
  proof
    assume "waitForSlot rs e L = Some L'"
    from waitForSlot_admitted[OF this] obtain r0 L0
      where "r0 \<in> set rs" "evaluate r0 e L0 = (Admitted, L')" by blast
    then show "length (globalRequests L') \<le> GLOBAL_LIMIT \<and> length (window_of L' e) \<le> ENDPOINT_LIMIT
            \<and> last (globalRequests L') \<in> at_entry ` set rs"
      using evaluate_admitted_bounds[of r0 e L0 L'] by auto
  qed
  from A B C D E show ?thesis by blast
qed




theorem rate_limiter_window_ceilings_witness:
  "chronological 0
     [(\<lparr>at_entry = 1000, at_global_clean = 1000, at_endpoint_clean = 1001\<rparr>, ''/v2/farcaster/cast''),
      (\<lparr>at_entry = 2000, at_global_clean = 2000, at_endpoint_clean = 2000\<rparr>, ''/v2/farcaster/cast'')]
   \<and> length (admitted_global 3000 (snd (run
     [(\<lparr>at_entry = 1000, at_global_clean = 1000, at_endpoint_clean = 1001\<rparr>, ''/v2/farcaster/cast''),
      (\<lparr>at_entry = 2000, at_global_clean = 2000, at_endpoint_clean = 2000\<rparr>, ''/v2/farcaster/cast'')]
     (new_RateLimiter, [])))) = 2
   \<and> length (admitted_global 3000 (snd (run
     [(\<lparr>at_entry = 1000, at_global_clean = 1000, at_endpoint_clean = 1001\<rparr>, ''/v2/farcaster/cast''),
      (\<lparr>at_entry = 2000, at_global_clean = 2000, at_endpoint_clean = 2000\<rparr>, ''/v2/farcaster/cast'')]
     (new_RateLimiter, [])))) \<le> GLOBAL_LIMIT
   \<and> fst (evaluate \<lparr>at_entry = 2000, at_global_clean = 2000, at_endpoint_clean = 2000\<rparr>
        ''/v2/farcaster/cast''
        \<lparr>endpointRequests = [''/v2/farcaster/cast'' \<mapsto> replicate 250 1000],
         globalRequests = replicate 250 1000\<rparr>) = Suspend 59100
   \<and> waitForSlot
        [\<lparr>at_entry = 2000, at_global_clean = 2000, at_endpoint_clean = 2000\<rparr>,
         \<lparr>at_entry = 61100, at_global_clean = 61100, at_endpoint_clean = 61100\<rparr>]
        ''/v2/farcaster/cast''
        \<lparr>endpointRequests = [''/v2/farcaster/cast'' \<mapsto> replicate 250 1000],
         globalRequests = replicate 250 1000\<rparr>
      = Some \<lparr>endpointRequests = [''/v2/farcaster/cast'' \<mapsto> [61100]], globalRequests = [61100]\<rparr>
   \<and> waitForSlot
        [\<lparr>at_entry = 2000, at_global_clean = 2000, at_endpoint_clean = 2000\<rparr>,
         \<lparr>at_entry = 61100, at_global_clean = 61100, at_endpoint_clean = 61100\<rparr>]
        ''/v2/farcaster/cast''
        \<lparr>endpointRequests = [''/v2/farcaster/cast'' \<mapsto> replicate 250 1000],
         globalRequests = replicate 250 1000\<rparr>
      = waitForSlot
        [\<lparr>at_entry = 61100, at_global_clean = 61100, at_endpoint_clean = 61100\<rparr>]
        ''/v2/farcaster/cast''
        (snd (evaluate \<lparr>at_entry = 2000, at_global_clean = 2000, at_endpoint_clean = 2000\<rparr>
          ''/v2/farcaster/cast''
          \<lparr>endpointRequests = [''/v2/farcaster/cast'' \<mapsto> replicate 250 1000],
           globalRequests = replicate 250 1000\<rparr>))
   \<and> length (window_of
        \<lparr>endpointRequests = [''/v2/farcaster/cast'' \<mapsto> [61100]], globalRequests = [61100]\<rparr>
        ''/v2/farcaster/cast'') \<le> ENDPOINT_LIMIT"
proof -
  let ?e = "''/v2/farcaster/cast''"
  let ?r1 = "\<lparr>at_entry = 1000, at_global_clean = 1000, at_endpoint_clean = 1001\<rparr>"
  let ?r2 = "\<lparr>at_entry = 2000, at_global_clean = 2000, at_endpoint_clean = 2000\<rparr>"
  let ?r3 = "\<lparr>at_entry = 61100, at_global_clean = 61100, at_endpoint_clean = 61100\<rparr>"
  let ?L = "\<lparr>endpointRequests = [?e \<mapsto> replicate 250 1000], globalRequests = replicate 250 1000\<rparr>"
  have h1: "chronological 0 [(?r1, ?e), (?r2, ?e)]" by simp
  have h2: "last_reading 0 [(?r1, ?e), (?r2, ?e)] \<le> 3000" by simp
  have "replicate (Suc 249) (1000::int) = 1000 # replicate 249 1000" by (rule replicate_Suc)
  then have rep: "replicate 250 (1000::int) = 1000 # replicate 249 1000" by simp
  have ev: "evaluate ?r2 ?e ?L = (Suspend 59100, ?L)"
    by (simp add: evaluate_def cleanOldRequests_def WINDOW_MS_def GLOBAL_LIMIT_def ENDPOINT_LIMIT_def
        Let_def rep)
  have ev3: "evaluate ?r3 ?e ?L
    = (Admitted, \<lparr>endpointRequests = [?e \<mapsto> [61100]], globalRequests = [61100]\<rparr>)"
    by (simp add: evaluate_def cleanOldRequests_def WINDOW_MS_def GLOBAL_LIMIT_def ENDPOINT_LIMIT_def Let_def)
  have w: "waitForSlot [?r2, ?r3] ?e ?L
     = Some \<lparr>endpointRequests = [?e \<mapsto> [61100]], globalRequests = [61100]\<rparr>"
    by (simp add: ev ev3)
  have r: "run [(?r1, ?e), (?r2, ?e)] (new_RateLimiter, [])
     = (\<lparr>endpointRequests = [?e \<mapsto> [1000, 2000]], globalRequests = [1000, 2000]\<rparr>,
        [(?e, 1000), (?e, 2000)])"
    by (simp add: step_def evaluate_def cleanOldRequests_def WINDOW_MS_def GLOBAL_LIMIT_def
        ENDPOINT_LIMIT_def Let_def new_RateLimiter_def)
  have two: "length (admitted_global 3000 (snd (run [(?r1, ?e), (?r2, ?e)] (new_RateLimiter, [])))) = 2"
    by (simp only: r) (simp add: admitted_global_def in_window_def WINDOW_MS_def)
  let ?L' = "\<lparr>endpointRequests = [?e \<mapsto> [61100]], globalRequests = [61100]\<rparr>"
  note inst = rate_limiter_window_ceilings[OF h1 h2, of ?e ?r2 ?e ?L "[?r3]" ?L']
  from inst
  have le: "length (admitted_global 3000 (snd (run [(?r1, ?e), (?r2, ?e)] (new_RateLimiter, [])))) \<le> GLOBAL_LIMIT"
    by (rule conjunct1)
  have ev': "fst (evaluate ?r2 ?e ?L) = Suspend 59100"
    by (simp only: ev fst_conv)
  then have ne: "fst (evaluate ?r2 ?e ?L) \<noteq> Admitted"
    by (simp only: verdict.distinct not_False_eq_True)
  from inst ne
  have again: "waitForSlot [?r2, ?r3] ?e ?L = waitForSlot [?r3] ?e (snd (evaluate ?r2 ?e ?L))"
    by blast
  have w3: "waitForSlot [?r3] ?e ?L = Some ?L'"
    by (simp add: ev3)
  from inst w3
  have within: "length (window_of ?L' ?e) \<le> ENDPOINT_LIMIT"
    by blast
  show ?thesis
    by (intro conjI) (rule h1, rule two, rule le, rule ev', rule w, rule again, rule within)
qed

section \<open>The pricing classifier\<close>

lemma isFreeTier_iff:
  "isFreeTier options \<longleftrightarrow>
     num_or (limit options) 50 \<le> FREE_TIER_maxLimit \<and> \<not> truthy_bool (all options)
     \<and> \<not> truthy_bool (includeReplies options) \<and> \<not> truthy_bool (includeParents options)"
  by (simp add: isFreeTier_def Let_def not_less)

text \<open>
  Claim C3. On the Farcaster rule table (free cap 10) the client-side classifier answers
  true for \<^verbatim>\<open>{limit: 10}\<close>, false for \<^verbatim>\<open>{limit: 10, includeReplies: true}\<close>, false for
  \<^verbatim>\<open>{limit: 11}\<close> and false for \<^verbatim>\<open>{all: true}\<close>; and for every request it answers true
  exactly when the effective limit (\<^verbatim>\<open>limit || 50\<close>) is at most 10, fetch-all is not
  requested, and neither replies nor parents are requested.
\<close>

theorem isFreeTier_reference_table:
  "isFreeTier (no_params\<lparr>limit := Some 10\<rparr>) = True
   \<and> isFreeTier (no_params\<lparr>limit := Some 10, includeReplies := Some True\<rparr>) = False
   \<and> isFreeTier (no_params\<lparr>limit := Some 11\<rparr>) = False
   \<and> isFreeTier (no_params\<lparr>all := Some True\<rparr>) = False
   \<and> isFreeTier options =
       (num_or (limit options) 50 \<le> 10 \<and> \<not> truthy_bool (all options)
        \<and> \<not> truthy_bool (includeReplies options) \<and> \<not> truthy_bool (includeParents options))"
proof -
  have 1: "isFreeTier (no_params\<lparr>limit := Some 10\<rparr>) = True"
    by (simp add: isFreeTier_iff no_params_def num_or_def truthy_bool_def FREE_TIER_maxLimit_def)
  have 2: "isFreeTier (no_params\<lparr>limit := Some 10, includeReplies := Some True\<rparr>) = False"
    by (simp add: isFreeTier_iff no_params_def num_or_def truthy_bool_def FREE_TIER_maxLimit_def)
  have 3: "isFreeTier (no_params\<lparr>limit := Some 11\<rparr>) = False"
    by (simp add: isFreeTier_iff no_params_def num_or_def truthy_bool_def FREE_TIER_maxLimit_def)
  have 4: "isFreeTier (no_params\<lparr>all := Some True\<rparr>) = False"
    by (simp add: isFreeTier_iff no_params_def num_or_def truthy_bool_def FREE_TIER_maxLimit_def)
  have 5: "isFreeTier options =
       (num_or (limit options) 50 \<le> 10 \<and> \<not> truthy_bool (all options)
        \<and> \<not> truthy_bool (includeReplies options) \<and> \<not> truthy_bool (includeParents options))"
    by (simp add: isFreeTier_iff FREE_TIER_maxLimit_def)
  from 1 2 3 4 5 show ?thesis by (intro conjI)
qed

lemma fill_defaults_fields:
  assumes "fill_defaults p1 = fill_defaults p2"
  shows "fid p1 = fid p2" and "username p1 = username p2"
    and "num_or (limit p1) 50 = num_or (limit p2) 50"
    and "truthy_bool (all p1) = truthy_bool (all p2)"
    and "truthy_bool (includeReplies p1) = truthy_bool (includeReplies p2)"
    and "truthy_bool (includeParents p1) = truthy_bool (includeParents p2)"
    and "truthy_bool (includeReactions p1) = truthy_bool (includeReactions p2)"
proof -
  show "fid p1 = fid p2"
    using arg_cong[OF assms, of fid] by (simp add: fill_defaults_def)
  show "username p1 = username p2"
    using arg_cong[OF assms, of username] by (simp add: fill_defaults_def)
  show "num_or (limit p1) 50 = num_or (limit p2) 50"
    using arg_cong[OF assms, of limit] by (simp add: fill_defaults_def)
  show "truthy_bool (all p1) = truthy_bool (all p2)"
    using arg_cong[OF assms, of all]
    by (simp add: fill_defaults_def truthy_bool_def split: option.splits)
  show "truthy_bool (includeReplies p1) = truthy_bool (includeReplies p2)"
    using arg_cong[OF assms, of includeReplies]
    by (simp add: fill_defaults_def truthy_bool_def split: option.splits)
  show "truthy_bool (includeParents p1) = truthy_bool (includeParents p2)"
    using arg_cong[OF assms, of includeParents]
    by (simp add: fill_defaults_def truthy_bool_def split: option.splits)
  show "truthy_bool (includeReactions p1) = truthy_bool (includeReactions p2)"
    using arg_cong[OF assms, of includeReactions]
    by (simp add: fill_defaults_def truthy_bool_def split: option.splits)
qed

text \<open>
  Claim C4. Two requests that are equal after default-filling (limit 50, sort order newest,
  every boolean false) have the same pricing fingerprint.
\<close>

theorem fingerprint_ignores_explicit_defaults:
  assumes "fill_defaults p1 = fill_defaults p2"
  shows "getPricingFingerprint p1 = getPricingFingerprint p2"
  unfolding getPricingFingerprint_def by (simp only: fill_defaults_fields[OF assms])

theorem fingerprint_ignores_explicit_defaults_witness:
  "fill_defaults (no_params\<lparr>username := Some ''alice'', limit := Some 50, sortOrder := Some newest,
       includeReplies := Some False, includeReactions := Some False, includeParents := Some False\<rparr>)
     = fill_defaults (no_params\<lparr>username := Some ''alice''\<rparr>)
   \<and> getPricingFingerprint (no_params\<lparr>username := Some ''alice'', limit := Some 50,
       sortOrder := Some newest, includeReplies := Some False, includeReactions := Some False,
       includeParents := Some False\<rparr>)
     = getPricingFingerprint (no_params\<lparr>username := Some ''alice''\<rparr>)
   \<and> getPricingFingerprint (no_params\<lparr>username := Some ''alice''\<rparr>) = ''alice|50|||''"
proof -
  have h: "fill_defaults (no_params\<lparr>username := Some ''alice'', limit := Some 50,
       sortOrder := Some newest, includeReplies := Some False, includeReactions := Some False,
       includeParents := Some False\<rparr>)
     = fill_defaults (no_params\<lparr>username := Some ''alice''\<rparr>)"
    by (simp add: fill_defaults_def no_params_def num_or_def)
  have v: "getPricingFingerprint (no_params\<lparr>username := Some ''alice''\<rparr>) = ''alice|50|||''"
    by code_simp
  from h fingerprint_ignores_explicit_defaults[OF h] v show ?thesis by (intro conjI)
qed

section \<open>The TTL cache\<close>

text \<open>
  Claim C6, as the code has it. A value stored with time to live \<open>T\<close> at time \<open>t0\<close> is
  returned by a read at any time up to and including \<open>t0 + T\<close>, and the cache is left as it
  is; a read strictly after \<open>t0 + T\<close> reports the value absent and removes the entry.
\<close>

theorem cache_entry_live_through_expiry:
  "(now \<le> t0 + T \<longrightarrow>
      getCached now key (setCache t0 key v (Some T) cache)
        = (Some v, setCache t0 key v (Some T) cache))
   \<and> (t0 + T < now \<longrightarrow>
      getCached now key (setCache t0 key v (Some T) cache)
        = (None, cache(key := None)))"
  by (simp add: getCached_def setCache_def)

theorem cache_entry_live_through_expiry_witness:
  "getCached 60999 ''fid:alice'' (setCache 1000 ''fid:alice'' (3::int) (Some 60000) Map.empty)
     = (Some 3, setCache 1000 ''fid:alice'' 3 (Some 60000) Map.empty)
   \<and> getCached 61001 ''fid:alice'' (setCache 1000 ''fid:alice'' (3::int) (Some 60000) Map.empty)
     = (None, Map.empty)"
  using cache_entry_live_through_expiry[of 60999 1000 60000 "''fid:alice''" "3::int" Map.empty]
    cache_entry_live_through_expiry[of 61001 1000 60000 "''fid:alice''" "3::int" Map.empty]
  by simp

text \<open>
  A read at exactly \<open>t0 + T\<close> (stored at 1000 with a time to live of 60000, read at 61000)
  still returns the value and keeps the entry: \<^verbatim>\<open>Date.now() > item.expiry\<close> is false there.
\<close>

theorem cache_read_at_expiry_counterexample:
  "getCached 61000 ''fid:alice'' (setCache 1000 ''fid:alice'' (3::int) (Some 60000) Map.empty)
     = (Some 3, [''fid:alice'' \<mapsto> \<lparr>data = 3, expiry = 61000\<rparr>])"
  by (simp add: getCached_def setCache_def)

section \<open>Pagination, ordering and parent resolution\<close>

lemma fetchPages_extends:
  "fetchPages a l r up acc = Inr out \<Longrightarrow> \<exists>rest. out = acc @ rest"
proof (induction up arbitrary: acc)
  case (Fails err)
  then show ?case by simp
next
  case (Page casts nxt)
  show ?case
  proof (cases nxt)
    case None
    with Page.prems show ?thesis by auto
  next
    case (Some cr)
    obtain cursor rest where cr: "cr = (cursor, rest)" by (cases cr)
    let ?acc = "acc @ filtered_page r casts"
    show ?thesis
    proof (cases "cursor \<noteq> [] \<and> (a \<or> below_limit (length ?acc) l)")
      case True
      then have "fetchPages a l r rest ?acc = Inr out"
        using Page.prems Some cr by simp
      moreover have "rest \<in> Basic_BNFs.snds cr" by (simp add: cr)
      moreover have "cr \<in> set_option nxt" by (simp add: Some)
      ultimately have "\<exists>rest'. out = ?acc @ rest'" using Page.IH by blast
      then show ?thesis by auto
    next
      case False
      then have "out = ?acc" using Page.prems Some cr by auto
      then show ?thesis by simp
    qed
  qed
qed

lemma fetchPages_prefix:
  assumes "fetchPages False (Some N) r up acc = Inr fetched"
    and "fetchPages True None r up acc = Inr full"
  shows "\<exists>rest. full = fetched @ rest \<and> (rest = [] \<or> N \<le> int (length fetched))"
  using assms
proof (induction up arbitrary: acc)
  case (Fails err)
  then show ?case by simp
next
  case (Page casts nxt)
  show ?case
  proof (cases nxt)
    case None
    with Page.prems show ?thesis by simp
  next
    case (Some cr)
    obtain cursor rest where cr: "cr = (cursor, rest)" by (cases cr)
    let ?acc = "acc @ filtered_page r casts"
    show ?thesis
    proof (cases "cursor = []")
      case True
      with Page.prems Some cr show ?thesis by simp
    next
      case nonempty: False
      then have full: "fetchPages True None r rest ?acc = Inr full"
        using Page.prems(2) Some cr by simp
      show ?thesis
      proof (cases "below_limit (length ?acc) (Some N)")
        case True
        then have "fetchPages False (Some N) r rest ?acc = Inr fetched"
          using Page.prems(1) Some cr nonempty by simp
        moreover have "rest \<in> Basic_BNFs.snds cr" by (simp add: cr)
        moreover have "cr \<in> set_option nxt" by (simp add: Some)
        ultimately show ?thesis using Page.IH full by blast
      next
        case False
        then have f: "fetched = ?acc"
          using Page.prems(1) Some cr nonempty by simp
        have "\<exists>rest'. full = ?acc @ rest'"
          using full by (rule fetchPages_extends)
        then show ?thesis using f False by (auto simp: below_limit_def)
      qed
    qed
  qed
qed

lemma fetchCasts_unfold:
  assumes "fetchPages (all params = Some True)
             (if all params = Some True then None else Some (num_or (limit params) 50))
             (includeReplies params = Some True) upstream [] = Inr allCasts"
  shows "fetchCasts upstream lookup params =
     Inr (let sorted = (if sortOrder params = Some oldest then rev allCasts else allCasts);
              linked = (if includeParents params = Some True then attachParents lookup sorted
                        else sorted)
          in if all params = Some True then linked
             else slice0 linked (num_or (limit params) 50))"
  using assms unfolding fetchCasts_def Let_def
  by (cases "sortOrder params") (auto split: SortOrder.splits)

text \<open>
  Claim C2, as the code has it. With a bounded limit \<open>N\<close> (\<^verbatim>\<open>limit || 50\<close>) the page loop
  returns what it has accumulated as soon as a page leaves the cursor empty or brings the
  filtered count to \<open>N\<close> or more; it goes on to the next page exactly when the cursor is
  non-empty and the count is still below \<open>N\<close>; and it returns at the end of the cursor
  chain. So the fetched sequence is a prefix of the full newest-first history (what a
  fetch-all request accumulates), and it is the whole history unless it already holds \<open>N\<close>
  items. When pagination has reached the end of the history, sort order \<^verbatim>\<open>oldest\<close> with
  limit \<open>N\<close> returns the first \<open>N\<close> items of the reversed full history, parents linked when
  requested: the \<open>N\<close> oldest items, oldest first.
\<close>

theorem oldest_limit_when_history_exhausted:
  assumes "sortOrder params = Some oldest" and "all params \<noteq> Some True"
    and "fetchPages False (Some (num_or (limit params) 50)) (includeReplies params = Some True)
           upstream [] = Inr fetched"
    and "fetchPages True None (includeReplies params = Some True) upstream [] = Inr full"
  shows "(cursor = [] \<or> num_or (limit params) 50
              \<le> int (length (acc @ filtered_page (includeReplies params = Some True) casts))
          \<longrightarrow> fetchPages False (Some (num_or (limit params) 50)) (includeReplies params = Some True)
                (Page casts (Some (cursor, next_pages))) acc
              = Inr (acc @ filtered_page (includeReplies params = Some True) casts))
         \<and> (cursor \<noteq> [] \<and> int (length (acc @ filtered_page (includeReplies params = Some True) casts))
              < num_or (limit params) 50
          \<longrightarrow> fetchPages False (Some (num_or (limit params) 50)) (includeReplies params = Some True)
                (Page casts (Some (cursor, next_pages))) acc
              = fetchPages False (Some (num_or (limit params) 50))
                  (includeReplies params = Some True) next_pages
                  (acc @ filtered_page (includeReplies params = Some True) casts))
         \<and> fetchPages False (Some (num_or (limit params) 50)) (includeReplies params = Some True)
              (Page casts None) acc
            = Inr (acc @ filtered_page (includeReplies params = Some True) casts)
         \<and> (\<exists>rest. full = fetched @ rest
            \<and> (rest = [] \<or> num_or (limit params) 50 \<le> int (length fetched)))
         \<and> (fetched = full \<longrightarrow>
              fetchCasts upstream lookup params =
                Inr (slice0 (if includeParents params = Some True
                             then attachParents lookup (rev full) else rev full)
                       (num_or (limit params) 50)))"
proof (intro conjI)
  show "cursor = [] \<or> num_or (limit params) 50
              \<le> int (length (acc @ filtered_page (includeReplies params = Some True) casts))
          \<longrightarrow> fetchPages False (Some (num_or (limit params) 50)) (includeReplies params = Some True)
                (Page casts (Some (cursor, next_pages))) acc
              = Inr (acc @ filtered_page (includeReplies params = Some True) casts)"
    by (auto simp: below_limit_def Let_def)
  show "cursor \<noteq> [] \<and> int (length (acc @ filtered_page (includeReplies params = Some True) casts))
              < num_or (limit params) 50
          \<longrightarrow> fetchPages False (Some (num_or (limit params) 50)) (includeReplies params = Some True)
                (Page casts (Some (cursor, next_pages))) acc
              = fetchPages False (Some (num_or (limit params) 50))
                  (includeReplies params = Some True) next_pages
                  (acc @ filtered_page (includeReplies params = Some True) casts)"
    by (auto simp: below_limit_def Let_def)
  show "fetchPages False (Some (num_or (limit params) 50)) (includeReplies params = Some True)
              (Page casts None) acc
            = Inr (acc @ filtered_page (includeReplies params = Some True) casts)"
    by simp
  show "\<exists>rest. full = fetched @ rest
            \<and> (rest = [] \<or> num_or (limit params) 50 \<le> int (length fetched))"
    using assms(3,4) by (rule fetchPages_prefix)
  have "fetchPages (all params = Some True)
             (if all params = Some True then None else Some (num_or (limit params) 50))
             (includeReplies params = Some True) upstream [] = Inr fetched"
    using assms(2,3) by simp
  from fetchCasts_unfold[OF this, of lookup] have "fetchCasts upstream lookup params =
           Inr (slice0 (if includeParents params = Some True
                        then attachParents lookup (rev fetched) else rev fetched)
                  (num_or (limit params) 50))"
    using assms(1,2) by (simp add: Let_def)
  then show "fetched = full \<longrightarrow>
              fetchCasts upstream lookup params =
                Inr (slice0 (if includeParents params = Some True
                             then attachParents lookup (rev full) else rev full)
                       (num_or (limit params) 50))"
    by simp
qed

lemma transform_sample: "transformCast (sample_cast h None) =
  FarcasterCast h h None None 3 ''alice'' ''gm'' ''2024-01-01'' [] [] 0 0"
  by (simp add: transformCast_def sample_cast_def truthy_str_def str_or_else_def num_or_def)

lemma filtered_samples:
  "filtered_page False (Some [sample_cast a None, sample_cast b None]) =
     [transformCast (sample_cast a None), transformCast (sample_cast b None)]"
  "filtered_page False (Some [sample_cast a None]) = [transformCast (sample_cast a None)]"
  by (simp_all add: filtered_page_def sample_cast_def truthy_str_def)

theorem oldest_limit_when_history_exhausted_witness:
  "fetchPages False (Some 2) False
     (Page (Some [sample_cast ''c3'' None])
        (Some (''cursor1'', Page (Some [sample_cast ''c2'' None, sample_cast ''c1'' None]) None))) []
     = Inr [transformCast (sample_cast ''c3'' None), transformCast (sample_cast ''c2'' None),
            transformCast (sample_cast ''c1'' None)]
   \<and> fetchPages True None False
     (Page (Some [sample_cast ''c3'' None])
        (Some (''cursor1'', Page (Some [sample_cast ''c2'' None, sample_cast ''c1'' None]) None))) []
     = Inr [transformCast (sample_cast ''c3'' None), transformCast (sample_cast ''c2'' None),
            transformCast (sample_cast ''c1'' None)]
   \<and> fetchCasts
     (Page (Some [sample_cast ''c3'' None])
        (Some (''cursor1'', Page (Some [sample_cast ''c2'' None, sample_cast ''c1'' None]) None)))
     (\<lambda>h. Found None) (no_params\<lparr>limit := Some 2, sortOrder := Some oldest\<rparr>)
     = Inr [transformCast (sample_cast ''c1'' None), transformCast (sample_cast ''c2'' None)]
   \<and> fetchPages False (Some 2) False
     (Page (Some [sample_cast ''c3'' None])
        (Some (''cursor1'', Page (Some [sample_cast ''c2'' None, sample_cast ''c1'' None]) None))) []
     = fetchPages False (Some 2) False
         (Page (Some [sample_cast ''c2'' None, sample_cast ''c1'' None]) None)
         [transformCast (sample_cast ''c3'' None)]
   \<and> fetchPages False (Some 2) False
     (Page (Some [sample_cast ''c3'' None, sample_cast ''c2'' None])
        (Some (''cursor1'', Page (Some [sample_cast ''c1'' None]) None))) []
     = Inr [transformCast (sample_cast ''c3'' None), transformCast (sample_cast ''c2'' None)]"
proof -
  let ?up = "Page (Some [sample_cast ''c3'' None])
        (Some (''cursor1'', Page (Some [sample_cast ''c2'' None, sample_cast ''c1'' None]) None))"
  let ?p = "no_params\<lparr>limit := Some 2, sortOrder := Some oldest\<rparr>"
  let ?full = "[transformCast (sample_cast ''c3'' None), transformCast (sample_cast ''c2'' None),
            transformCast (sample_cast ''c1'' None)]"
  have lim: "num_or (limit ?p) 50 = 2" by (simp add: no_params_def num_or_def)
  have r: "(includeReplies ?p = Some True) = False" by (simp add: no_params_def)
  have h1: "sortOrder ?p = Some oldest" by (simp add: no_params_def)
  have h2: "all ?p \<noteq> Some True" by (simp add: no_params_def)
  have ip: "(includeParents ?p = Some True) = False" by (simp add: no_params_def)
  have f: "fetchPages False (Some 2) False ?up [] = Inr ?full"
    by (simp add: filtered_samples below_limit_def)
  have g: "fetchPages True None False ?up [] = Inr ?full"
    by (simp add: filtered_samples)
  have h3: "fetchPages False (Some (num_or (limit ?p) 50)) (includeReplies ?p = Some True) ?up []
     = Inr ?full"
    using f by (simp only: lim r)
  have h4: "fetchPages True None (includeReplies ?p = Some True) ?up [] = Inr ?full"
    using g by (simp only: r)
  note goes_on = oldest_limit_when_history_exhausted[OF h1 h2 h3 h4,
      where cursor = "''cursor1''" and acc = "[]" and casts = "Some [sample_cast ''c3'' None]"
        and next_pages = "Page (Some [sample_cast ''c2'' None, sample_cast ''c1'' None]) None"
        and lookup = "\<lambda>h. Found None"]
  note stops = oldest_limit_when_history_exhausted[OF h1 h2 h3 h4,
      where cursor = "''cursor1''" and acc = "[]"
        and casts = "Some [sample_cast ''c3'' None, sample_cast ''c2'' None]"
        and next_pages = "Page (Some [sample_cast ''c1'' None]) None"
        and lookup = "\<lambda>h. Found None"]
  from goes_on
  have "fetchCasts ?up (\<lambda>h. Found None) ?p = Inr (slice0 (rev ?full) 2)"
    by (simp only: lim ip if_False simp_thms)
  then have c: "fetchCasts ?up (\<lambda>h. Found None) ?p
     = Inr [transformCast (sample_cast ''c1'' None), transformCast (sample_cast ''c2'' None)]"
    by (simp add: slice0_def)
  have one: "''cursor1'' \<noteq> [] \<and> int (length ([] @ filtered_page False (Some [sample_cast ''c3'' None]))) < 2"
    by (simp add: filtered_samples)
  from goes_on one
  have d: "fetchPages False (Some 2) False ?up []
     = fetchPages False (Some 2) False
         (Page (Some [sample_cast ''c2'' None, sample_cast ''c1'' None]) None)
         ([] @ filtered_page False (Some [sample_cast ''c3'' None]))"
    unfolding lim r by blast
  then have d': "fetchPages False (Some 2) False ?up []
     = fetchPages False (Some 2) False
         (Page (Some [sample_cast ''c2'' None, sample_cast ''c1'' None]) None)
         [transformCast (sample_cast ''c3'' None)]"
    by (simp only: filtered_samples append_Nil)
  have two: "''cursor1'' = [] \<or> 2 \<le> int (length ([] @ filtered_page False
       (Some [sample_cast ''c3'' None, sample_cast ''c2'' None])))"
    by (simp add: filtered_samples)
  from stops two
  have e: "fetchPages False (Some 2) False
     (Page (Some [sample_cast ''c3'' None, sample_cast ''c2'' None])
        (Some (''cursor1'', Page (Some [sample_cast ''c1'' None]) None))) []
     = Inr ([] @ filtered_page False (Some [sample_cast ''c3'' None, sample_cast ''c2'' None]))"
    unfolding lim r by blast
  then have e': "fetchPages False (Some 2) False
     (Page (Some [sample_cast ''c3'' None, sample_cast ''c2'' None])
        (Some (''cursor1'', Page (Some [sample_cast ''c1'' None]) None))) []
     = Inr [transformCast (sample_cast ''c3'' None), transformCast (sample_cast ''c2'' None)]"
    by (simp only: filtered_samples append_Nil)
  from f g c d' e' show ?thesis by (intro conjI)
qed

text \<open>
  The history has two pages, \<open>c3, c2\<close> and then \<open>c1\<close> (newest first). With sort order
  \<^verbatim>\<open>oldest\<close> and limit 1 the first page already holds one item, so only it is fetched and
  the result is \<open>c2\<close>: neither the oldest item of the full history (\<open>c1\<close>) nor its newest
  one (\<open>c3\<close>).
\<close>

theorem oldest_limit_not_over_full_history_counterexample:
  "fetchCasts
     (Page (Some [sample_cast ''c3'' None, sample_cast ''c2'' None])
        (Some (''cursor1'', Page (Some [sample_cast ''c1'' None]) None)))
     (\<lambda>h. Found None) (no_params\<lparr>all := Some True\<rparr>)
     = Inr (map transformCast [sample_cast ''c3'' None, sample_cast ''c2'' None, sample_cast ''c1'' None])
   \<and> fetchCasts
     (Page (Some [sample_cast ''c3'' None, sample_cast ''c2'' None])
        (Some (''cursor1'', Page (Some [sample_cast ''c1'' None]) None)))
     (\<lambda>h. Found None) (no_params\<lparr>limit := Some 1, sortOrder := Some oldest\<rparr>)
     = Inr (map transformCast [sample_cast ''c2'' None])
   \<and> map transformCast [sample_cast ''c2'' None]
     \<noteq> take 1 (rev (map transformCast
         [sample_cast ''c3'' None, sample_cast ''c2'' None, sample_cast ''c1'' None]))
   \<and> map transformCast [sample_cast ''c2'' None]
     \<noteq> rev (take 1 (map transformCast
         [sample_cast ''c3'' None, sample_cast ''c2'' None, sample_cast ''c1'' None]))"
proof -
  let ?up = "Page (Some [sample_cast ''c3'' None, sample_cast ''c2'' None])
        (Some (''cursor1'', Page (Some [sample_cast ''c1'' None]) None))"
  have a: "fetchPages True None False ?up []
     = Inr (map transformCast [sample_cast ''c3'' None, sample_cast ''c2'' None, sample_cast ''c1'' None])"
    by (simp add: filtered_samples)
  have A: "fetchCasts ?up (\<lambda>h. Found None) (no_params\<lparr>all := Some True\<rparr>)
     = Inr (map transformCast [sample_cast ''c3'' None, sample_cast ''c2'' None, sample_cast ''c1'' None])"
    using a by (simp add: fetchCasts_def no_params_def)
  have b: "fetchPages False (Some 1) False ?up []
     = Inr (map transformCast [sample_cast ''c3'' None, sample_cast ''c2'' None])"
    by (simp add: filtered_samples below_limit_def)
  have B: "fetchCasts ?up (\<lambda>h. Found None) (no_params\<lparr>limit := Some 1, sortOrder := Some oldest\<rparr>)
     = Inr (map transformCast [sample_cast ''c2'' None])"
    using b by (simp add: fetchCasts_def no_params_def num_or_def slice0_def)
  have C: "map transformCast [sample_cast ''c2'' None]
     \<noteq> take 1 (rev (map transformCast
         [sample_cast ''c3'' None, sample_cast ''c2'' None, sample_cast ''c1'' None]))"
    by (simp add: transform_sample)
  have D: "map transformCast [sample_cast ''c2'' None]
     \<noteq> rev (take 1 (map transformCast
         [sample_cast ''c3'' None, sample_cast ''c2'' None, sample_cast ''c1'' None]))"
    by (simp add: transform_sample)
  from A B C D show ?thesis by (intro conjI)
qed























lemma transform_sample_reply: "transformCast (sample_cast h (Some (x # xs))) =
  FarcasterCast h h (Some (x # xs)) None 3 ''alice'' ''gm'' ''2024-01-01'' [] [] 0 0"
  by (simp add: transformCast_def sample_cast_def truthy_str_def str_or_else_def num_or_def)



text \<open>
  Outside that hypothesis the read \<^verbatim>\<open>parentMap[c.parentHash]\<close> can be truthy without any
  lookup having succeeded: for the key \<^verbatim>\<open>constructor\<close> it yields the inherited property, and
  the item is linked to it.
\<close>

lemma inherited_key_reads_truthy:
  "attachParents (\<lambda>h. Throws Thrown) [transformCast (sample_cast ''c2'' (Some ''constructor''))]
     = [set_parentCast (Inherited ''constructor'')
          (transformCast (sample_cast ''c2'' (Some ''constructor'')))]
   \<and> \<not> plain_parent_hashes [transformCast (sample_cast ''c2'' (Some ''constructor''))]"
proof
  have d: "dedup [''constructor''] = [''constructor'']" by simp
  have rb: "resolveBatches (\<lambda>h. Throws Thrown) [''constructor''] 0 empty_object = empty_object"
    by (simp add: resolveBatches.simps[of _ _ 0] resolveBatches.simps[of _ _ 25]
        batchSize_def Let_def mergeResults_def lookupParent_def)
  have rd: "read_property empty_object ''constructor'' = Some (Inherited ''constructor'')"
    by (simp add: read_property_def empty_object_def Object_prototype_names_def)
  show "attachParents (\<lambda>h. Throws Thrown)
          [transformCast (sample_cast ''c2'' (Some ''constructor''))]
     = [set_parentCast (Inherited ''constructor'')
          (transformCast (sample_cast ''c2'' (Some ''constructor'')))]"
    by (simp add: attachParents_def Let_def transform_sample_reply map_filter_def d rb rd
        del: dedup.simps set_parentCast.simps)
  show "\<not> plain_parent_hashes [transformCast (sample_cast ''c2'' (Some ''constructor''))]"
    by (simp add: plain_parent_hashes_def transform_sample_reply Object_prototype_names_def)
qed

text \<open>
  Claim C9, as the code has it. An omitted limit is treated as 50 by the client's free-tier
  check and by the server's \<^verbatim>\<open>fetchCasts\<close>. A request with an omitted limit and no other
  option is not free, while one with an explicit non-zero limit of at most 10 is; an
  explicit limit of 0 is falsy, counts as omitted, and is not free.
\<close>

theorem omitted_limit_is_fifty:
  "isFreeTier (options\<lparr>limit := None\<rparr>) = isFreeTier (options\<lparr>limit := Some 50\<rparr>)
   \<and> fetchCasts upstream lookup (params\<lparr>limit := None\<rparr>)
       = fetchCasts upstream lookup (params\<lparr>limit := Some 50\<rparr>)
   \<and> isFreeTier (no_params\<lparr>fid := f, username := u\<rparr>) = False
   \<and> (n \<noteq> 0 \<and> n \<le> 10 \<longrightarrow>
        isFreeTier (no_params\<lparr>fid := f, username := u, limit := Some n\<rparr>) = True)
   \<and> isFreeTier (no_params\<lparr>fid := f, username := u, limit := Some 0\<rparr>) = False"
proof -
  have 1: "isFreeTier (options\<lparr>limit := None\<rparr>) = isFreeTier (options\<lparr>limit := Some 50\<rparr>)"
    by (simp add: isFreeTier_def num_or_def)
  have 2: "fetchCasts upstream lookup (params\<lparr>limit := None\<rparr>)
       = fetchCasts upstream lookup (params\<lparr>limit := Some 50\<rparr>)"
    by (simp add: fetchCasts_def num_or_def Let_def split: sum.splits)
  have 3: "isFreeTier (no_params\<lparr>fid := f, username := u\<rparr>) = False"
    by (simp add: isFreeTier_def num_or_def no_params_def FREE_TIER_maxLimit_def)
  have 4: "n \<noteq> 0 \<and> n \<le> 10 \<longrightarrow>
        isFreeTier (no_params\<lparr>fid := f, username := u, limit := Some n\<rparr>) = True"
    by (simp add: isFreeTier_def num_or_def no_params_def FREE_TIER_maxLimit_def truthy_bool_def)
  have 5: "isFreeTier (no_params\<lparr>fid := f, username := u, limit := Some 0\<rparr>) = False"
    by (simp add: isFreeTier_def num_or_def no_params_def FREE_TIER_maxLimit_def)
  from 1 2 3 4 5 show ?thesis by (intro conjI)
qed

theorem omitted_limit_is_fifty_witness:
  "isFreeTier (no_params\<lparr>username := Some ''alice''\<rparr>) = False
   \<and> (10::int) \<noteq> 0 \<and> (10::int) \<le> 10
   \<and> isFreeTier (no_params\<lparr>fid := None, username := Some ''alice'', limit := Some 10\<rparr>) = True"
proof -
  note inst = omitted_limit_is_fifty[where options = no_params and upstream = "Fails Thrown"
      and lookup = "\<lambda>h. Found None" and params = no_params and f = None
      and u = "Some ''alice''" and n = 10]
  from inst have a: "isFreeTier (no_params\<lparr>fid := None, username := Some ''alice''\<rparr>) = False"
    by blast
  have "no_params\<lparr>fid := None, username := Some ''alice''\<rparr> = no_params\<lparr>username := Some ''alice''\<rparr>"
    by (simp add: no_params_def)
  with a have a': "isFreeTier (no_params\<lparr>username := Some ''alice''\<rparr>) = False" by simp
  from inst have b: "isFreeTier (no_params\<lparr>fid := None, username := Some ''alice'', limit := Some 10\<rparr>) = True"
    by simp
  from a' b show ?thesis by simp
qed

text \<open>
  The explicit limit 0 is at most 10, and the request is classified as not free.
\<close>

theorem explicit_zero_limit_counterexample:
  "(0::int) \<le> 10 \<and> isFreeTier (no_params\<lparr>username := Some ''alice'', limit := Some 0\<rparr>) = False"
  by (simp add: isFreeTier_def num_or_def no_params_def FREE_TIER_maxLimit_def)

section \<open>Errors at the request boundary\<close>

lemma resolveFid_not_found:
  assumes "no_cached_fid t_get cache name" and "reports_no_match P name"
  shows "fst (resolveFid P t_get t_set name cache) = Inl (not_found name)"
proof -
  let ?n = "strip_at (toLowerCase name)"
  have look: "(case lookupUserByUsername P ?n of
               Inl err \<Rightarrow> (Inl err, c1)
             | Inr None \<Rightarrow> (Inl (not_found name), c1)
             | Inr (Some u) \<Rightarrow>
                 if raw_fid u = 0 then (Inl (not_found name), c1)
                 else (Inr (raw_fid u), setCache t_set (''fid:'' @ ?n) (raw_fid u) (Some 300000) c1))
        = (Inl (not_found name), c1)" for c1 :: "int Cache"
    using assms(2) unfolding reports_no_match_def
    by (auto split: sum.splits option.splits)
  show ?thesis
    using assms(1) unfolding resolveFid_def Let_def no_cached_fid_def look
    by (auto split: option.splits)
qed

lemma fetchUserData_not_found:
  assumes "no_cached_fid t_get cache name" and "reports_no_match P name"
  shows "fst (fetchUserData P t_get t_set (Inr name) ps cache) = Inl (not_found name)"
  using resolveFid_not_found[OF assms, of t_set]
  by (simp add: fetchUserData_def Let_def)

lemma respond_error: "http_status (respond (Inl err)) = 500"
  by (cases err) (simp_all add: respond_def text_response_def)

lemma respond_not_found:
  "respond (Inl (not_found name)) = text_response (''Error: User not found: '' @ name) 500"
  by (simp add: respond_def not_found_def)

lemma handler_by_username:
  assumes "query \<noteq> []"
    and "\<not> truthy_str (map_of query ''fid'')"
    and "map_of query ''username'' = Some u" and "u \<noteq> []"
    and "\<not> (truthy_str (map_of query ''limit'')
            \<and> not_positive number (str_or_else (map_of query ''limit'') ''''))"
    and "\<not> (truthy_str (map_of query ''sortOrder'')
            \<and> map_of query ''sortOrder'' \<noteq> Some ''newest''
            \<and> map_of query ''sortOrder'' \<noteq> Some ''oldest'')"
  shows "fst (handler number P t_get t_set query cache) =
           respond (fst (fetchUserData P t_get t_set (Inr (strip_at (toLowerCase u)))
                      (parsed_params number (map_of query)) cache))"
proof -
  have tu: "truthy_str (map_of query ''username'')"
    using assms(3,4) by (simp add: truthy_str_def)
  have f: "fid (parsed_params number (map_of query)) = None"
    using assms(2) by (simp add: parsed_params_def)
  have n: "str_or_else (username (parsed_params number (map_of query))) '''' = strip_at (toLowerCase u)"
    using tu assms(3) by (simp add: parsed_params_def str_or_else_def)
  show ?thesis
    unfolding handler_def Let_def using assms(1,2,5,6) tu
    by (auto simp: f n)
qed

text \<open>
  Claim C7, as the code has it. When the cache holds no fid for the name and the provider
  reports no match, \<^verbatim>\<open>resolveFid\<close> throws \<^verbatim>\<open>User not found\<close>, \<^verbatim>\<open>fetchUserData\<close> passes the
  error on, and the handler's \<^verbatim>\<open>catch\<close> clause ends the request with status 500 and the
  body \<^verbatim>\<open>Error: User not found: <name>\<close>. Every thrown error, an upstream failure included,
  is answered with status 500: the message in the body is all that tells them apart.
\<close>

theorem not_found_is_answered_with_500:
  assumes "no_cached_fid t_get cache name" and "reports_no_match P name"
  shows "fst (resolveFid P t_get t_set name cache) = Inl (not_found name)
       \<and> respond (fst (fetchUserData P t_get t_set (Inr name) ps cache))
           = text_response (''Error: User not found: '' @ name) 500
       \<and> http_status (respond (Inl err)) = 500
       \<and> (query \<noteq> [] \<and> \<not> truthy_str (map_of query ''fid'')
            \<and> map_of query ''username'' = Some u \<and> u \<noteq> [] \<and> name = strip_at (toLowerCase u)
            \<and> \<not> (truthy_str (map_of query ''limit'')
                   \<and> not_positive number (str_or_else (map_of query ''limit'') ''''))
            \<and> \<not> (truthy_str (map_of query ''sortOrder'')
                   \<and> map_of query ''sortOrder'' \<noteq> Some ''newest''
                   \<and> map_of query ''sortOrder'' \<noteq> Some ''oldest'')
           \<longrightarrow> fst (handler number P t_get t_set query cache)
                 = text_response (''Error: User not found: '' @ name) 500)"
proof (intro conjI impI)
  show "fst (resolveFid P t_get t_set name cache) = Inl (not_found name)"
    using assms by (rule resolveFid_not_found)
  show "respond (fst (fetchUserData P t_get t_set (Inr name) ps cache))
           = text_response (''Error: User not found: '' @ name) 500"
    by (simp only: fetchUserData_not_found[OF assms] respond_not_found)
  show "http_status (respond (Inl err)) = 500"
    by (rule respond_error)
next
  assume q: "query \<noteq> [] \<and> \<not> truthy_str (map_of query ''fid'')
            \<and> map_of query ''username'' = Some u \<and> u \<noteq> [] \<and> name = strip_at (toLowerCase u)
            \<and> \<not> (truthy_str (map_of query ''limit'')
                   \<and> not_positive number (str_or_else (map_of query ''limit'') ''''))
            \<and> \<not> (truthy_str (map_of query ''sortOrder'')
                   \<and> map_of query ''sortOrder'' \<noteq> Some ''newest''
                   \<and> map_of query ''sortOrder'' \<noteq> Some ''oldest'')"
  then have "fst (handler number P t_get t_set query cache) =
           respond (fst (fetchUserData P t_get t_set (Inr (strip_at (toLowerCase u)))
                      (parsed_params number (map_of query)) cache))"
    by (intro handler_by_username) blast+
  also have "\<dots> = respond (fst (fetchUserData P t_get t_set (Inr name)
                      (parsed_params number (map_of query)) cache))"
    using q by simp
  also have "\<dots> = text_response (''Error: User not found: '' @ name) 500"
    by (simp only: fetchUserData_not_found[OF assms] respond_not_found)
  finally show "fst (handler number P t_get t_set query cache)
                 = text_response (''Error: User not found: '' @ name) 500" .
qed

lemma lower_nobody: "strip_at (toLowerCase ''nobody'') = ''nobody''"
  by code_simp

theorem not_found_is_answered_with_500_witness:
  "no_cached_fid 0 Map.empty ''nobody'' \<and> reports_no_match sample_provider ''nobody''
   \<and> fst (handler (\<lambda>s. None) sample_provider 0 0 [(''username'', ''nobody'')] Map.empty)
       = \<lparr>http_status = 500, http_body = ''Error: User not found: nobody'', http_location = None\<rparr>"
proof -
  have h1: "no_cached_fid 0 Map.empty ''nobody''"
    by (simp add: no_cached_fid_def getCached_def)
  have h2: "reports_no_match sample_provider ''nobody''"
    by (simp add: reports_no_match_def sample_provider_def)
  have q: "[(''username'', ''nobody'')] \<noteq> []
      \<and> \<not> truthy_str (map_of [(''username'', ''nobody'')] ''fid'')
      \<and> map_of [(''username'', ''nobody'')] ''username'' = Some ''nobody'' \<and> ''nobody'' \<noteq> []
      \<and> ''nobody'' = strip_at (toLowerCase ''nobody'')
      \<and> \<not> (truthy_str (map_of [(''username'', ''nobody'')] ''limit'')
             \<and> not_positive (\<lambda>s. None) (str_or_else (map_of [(''username'', ''nobody'')] ''limit'') ''''))
      \<and> \<not> (truthy_str (map_of [(''username'', ''nobody'')] ''sortOrder'')
             \<and> map_of [(''username'', ''nobody'')] ''sortOrder'' \<noteq> Some ''newest''
             \<and> map_of [(''username'', ''nobody'')] ''sortOrder'' \<noteq> Some ''oldest'')"
    by (simp add: truthy_str_def lower_nobody)
  from not_found_is_answered_with_500[OF h1 h2, of 0 no_params Thrown
      "[(''username'', ''nobody'')]" "''nobody''" "\<lambda>s. None"] q
  have "fst (handler (\<lambda>s. None) sample_provider 0 0 [(''username'', ''nobody'')] Map.empty)
       = text_response (''Error: User not found: '' @ ''nobody'') 500"
    by blast
  then have "fst (handler (\<lambda>s. None) sample_provider 0 0 [(''username'', ''nobody'')] Map.empty)
       = \<lparr>http_status = 500, http_body = ''Error: User not found: nobody'', http_location = None\<rparr>"
    by (simp add: text_response_def)
  with h1 h2 show ?thesis by (intro conjI)
qed

text \<open>
  The request \<^verbatim>\<open>?username=nobody\<close>, for a name the provider does not know, is answered with
  status 500, which is not a 4xx status.
\<close>

theorem not_found_status_counterexample:
  "http_status (fst (handler (\<lambda>s. None) sample_provider 0 0 [(''username'', ''nobody'')] Map.empty))
     = 500
   \<and> \<not> (400 \<le> http_status (fst (handler (\<lambda>s. None) sample_provider 0 0
                [(''username'', ''nobody'')] Map.empty))
        \<and> http_status (fst (handler (\<lambda>s. None) sample_provider 0 0
                [(''username'', ''nobody'')] Map.empty)) < 500)"
proof -
  have "fst (resolveFid sample_provider 0 0 ''nobody'' Map.empty) = Inl (not_found ''nobody'')"
    by (simp add: resolveFid_def Let_def lower_nobody getCached_def sample_provider_def)
  then have "fst (fetchUserData sample_provider 0 0 (Inr ''nobody'') ps Map.empty)
     = Inl (not_found ''nobody'')" for ps
    by (simp add: fetchUserData_def Let_def)
  then have "http_status (fst (handler (\<lambda>s. None) sample_provider 0 0
      [(''username'', ''nobody'')] Map.empty)) = 500"
    by (simp add: handler_def Let_def truthy_str_def parsed_params_def str_or_else_def
        lower_nobody respond_error)
  then show ?thesis by simp
qed

section \<open>The client without a signer, and local estimates\<close>

lemma unsigned_fetchFn:
  "cfg_signer config = None \<Longrightarrow>
   fetchFn (new_LlmFidClient rt globalFetch createPaymentFetch config)
     = (case cfg_fetch config of None \<Rightarrow> globalFetch | Some f \<Rightarrow> f)"
  by (simp add: new_LlmFidClient_def Let_def)

lemma new_client_baseUrl:
  "baseUrl (new_LlmFidClient rt globalFetch createPaymentFetch config)
     = str_or_else (cfg_baseUrl config) (getDefaultBaseUrl rt)"
  by (simp add: new_LlmFidClient_def Let_def)

text \<open>
  Claim C8. A client constructed without a signer sends the request through the base
  transport itself. When that one call answers with status 402 and a readable body,
  \<^verbatim>\<open>fetch\<close> returns that body and the status 402, throws nothing, and leaves the world as
  the one call left it: nothing is sent again, and the payment wrapper plays no part.
\<close>

theorem unsigned_client_surfaces_payment_required:
  assumes "cfg_signer config = None"
    and "truthy_num (fid options) \<or> truthy_str (username options)"
    and "(case cfg_fetch config of None \<Rightarrow> globalFetch | Some f \<Rightarrow> f)
           \<lparr>req_url = str_or_else (cfg_baseUrl config) (getDefaultBaseUrl rt) @ ''?''
                       @ buildQueryString options,
            req_accept = ''text/plain''\<rparr> w
         = (Inr response, w')"
    and "reply_status response = 402"
    and "reply_text response = Inr body"
  shows "client_fetch (new_LlmFidClient rt globalFetch createPaymentFetch config) options w
           = (Inr \<lparr>result_text = body, result_status = 402\<rparr>, w')"
proof -
  let ?client = "new_LlmFidClient rt globalFetch createPaymentFetch config"
  have sent: "fetchFn ?client
      \<lparr>req_url = baseUrl ?client @ ''?'' @ buildQueryString options, req_accept = ''text/plain''\<rparr> w
      = (Inr response, w')"
    using assms(3) by (simp only: unsigned_fetchFn[OF assms(1)] new_client_baseUrl)
  show ?thesis
    unfolding client_fetch_def Let_def sent using assms(2,4,5) by auto
qed

theorem unsigned_client_surfaces_payment_required_witness:
  "cfg_signer no_config = None
   \<and> truthy_num (fid (no_params\<lparr>fid := Some 3, all := Some True\<rparr>))
   \<and> reply_status payment_required = 402
   \<and> client_fetch (new_LlmFidClient browser (counting_fetch payment_required) (\<lambda>f s. f) no_config)
        (no_params\<lparr>fid := Some 3, all := Some True\<rparr>) 0
      = (Inr \<lparr>result_text = ''Payment Required'', result_status = 402\<rparr>, 1)"
proof -
  let ?o = "no_params\<lparr>fid := Some 3, all := Some True\<rparr>"
  have h1: "cfg_signer no_config = None" by (simp add: no_config_def)
  have t: "truthy_num (fid ?o)" by (simp add: truthy_num_def)
  then have h2: "truthy_num (fid ?o) \<or> truthy_str (username ?o)" by (rule disjI1)
  have h3: "(case cfg_fetch no_config of None \<Rightarrow> counting_fetch payment_required | Some f \<Rightarrow> f)
           \<lparr>req_url = str_or_else (cfg_baseUrl no_config) (getDefaultBaseUrl browser) @ ''?''
                       @ buildQueryString ?o,
            req_accept = ''text/plain''\<rparr> 0
         = (Inr payment_required, 1)"
    by (simp add: no_config_def counting_fetch_def)
  have h4: "reply_status payment_required = 402" by (simp add: payment_required_def)
  have h5: "reply_text payment_required = Inr ''Payment Required''"
    by (simp add: payment_required_def)
  from unsigned_client_surfaces_payment_required[OF h1 h2 h3 h4 h5, of "\<lambda>f s. f"] h1 t h4
  show ?thesis by (intro conjI)
qed

text \<open>
  Claim C10. For free-tier options \<^verbatim>\<open>getServerEstimate\<close> returns the price \<^verbatim>\<open>$0\<close>, free,
  with no cast count, and leaves the client and the world as they were: no request is
  sent. For options that are not free and have no live cached estimate, it returns
  \<^verbatim>\<open>null\<close> when the estimate request throws or its reply is not ok. It never throws.
\<close>

theorem free_tier_estimate_is_local:
  "(isFreeTier options \<longrightarrow>
      getServerEstimate client t_check t_store options w
        = (Inr (Some \<lparr>price = ''$0'', isFree = True, castCount = None\<rparr>), client, w))
   \<and> (\<not> isFreeTier options
       \<and> (case estimateCache client (getPricingFingerprint options) of
             None \<Rightarrow> True
           | Some hit \<Rightarrow> \<not> t_check - snd hit < ESTIMATE_CACHE_TTL)
       \<and> (case fst (baseFetchFn client
                      \<lparr>req_url = baseUrl client @ ''/estimate?'' @ buildQueryString options,
                       req_accept = ''application/json''\<rparr> w) of
             Inl err \<Rightarrow> True
           | Inr response \<Rightarrow> \<not> reply_ok response)
      \<longrightarrow> fst (getServerEstimate client t_check t_store options w) = Inr None)
   \<and> (\<exists>r. fst (getServerEstimate client t_check t_store options w) = Inr r)"
proof (intro conjI impI)
  show "getServerEstimate client t_check t_store options w
        = (Inr (Some \<lparr>price = ''$0'', isFree = True, castCount = None\<rparr>), client, w)"
    if "isFreeTier options"
    using that by (simp add: getServerEstimate_def)
  show "fst (getServerEstimate client t_check t_store options w) = Inr None"
    if "\<not> isFreeTier options
       \<and> (case estimateCache client (getPricingFingerprint options) of
             None \<Rightarrow> True
           | Some hit \<Rightarrow> \<not> t_check - snd hit < ESTIMATE_CACHE_TTL)
       \<and> (case fst (baseFetchFn client
                      \<lparr>req_url = baseUrl client @ ''/estimate?'' @ buildQueryString options,
                       req_accept = ''application/json''\<rparr> w) of
             Inl err \<Rightarrow> True
           | Inr response \<Rightarrow> \<not> reply_ok response)"
    using that unfolding getServerEstimate_def Let_def
    by (auto split: option.splits sum.splits)
  show "\<exists>r. fst (getServerEstimate client t_check t_store options w) = Inr r"
    unfolding getServerEstimate_def Let_def
    by (auto split: option.splits sum.splits)
qed

theorem free_tier_estimate_is_local_witness:
  "isFreeTier (no_params\<lparr>fid := Some 3, limit := Some 5\<rparr>)
   \<and> getServerEstimate
        (new_LlmFidClient browser (counting_fetch payment_required) (\<lambda>f s. f) no_config) 0 0
        (no_params\<lparr>fid := Some 3, limit := Some 5\<rparr>) 0
      = (Inr (Some \<lparr>price = ''$0'', isFree = True, castCount = None\<rparr>),
         new_LlmFidClient browser (counting_fetch payment_required) (\<lambda>f s. f) no_config, 0)
   \<and> \<not> isFreeTier (no_params\<lparr>fid := Some 3, all := Some True\<rparr>)
   \<and> fst (getServerEstimate
        (new_LlmFidClient browser (counting_fetch payment_required) (\<lambda>f s. f) no_config) 0 0
        (no_params\<lparr>fid := Some 3, all := Some True\<rparr>) 0)
      = Inr None"
proof -
  let ?C = "new_LlmFidClient browser (counting_fetch payment_required) (\<lambda>f s. f) no_config"
  let ?o1 = "no_params\<lparr>fid := Some 3, limit := Some 5\<rparr>"
  let ?o2 = "no_params\<lparr>fid := Some 3, all := Some True\<rparr>"
  have f1: "isFreeTier ?o1"
    by (simp add: isFreeTier_def no_params_def num_or_def truthy_bool_def FREE_TIER_maxLimit_def)
  have f2: "\<not> isFreeTier ?o2"
    by (simp add: isFreeTier_def no_params_def num_or_def truthy_bool_def FREE_TIER_maxLimit_def)
  have miss: "(case estimateCache ?C (getPricingFingerprint ?o2) of
             None \<Rightarrow> True
           | Some hit \<Rightarrow> \<not> 0 - snd hit < ESTIMATE_CACHE_TTL)"
    by (simp add: new_LlmFidClient_def Let_def)
  have fail: "(case fst (baseFetchFn ?C
                      \<lparr>req_url = baseUrl ?C @ ''/estimate?'' @ buildQueryString ?o2,
                       req_accept = ''application/json''\<rparr> 0) of
             Inl err \<Rightarrow> True
           | Inr response \<Rightarrow> \<not> reply_ok response)"
    by (simp add: new_LlmFidClient_def Let_def no_config_def counting_fetch_def
        payment_required_def)
  from free_tier_estimate_is_local[of ?o1 ?C 0 0 0] f1
  have a: "getServerEstimate ?C 0 0 ?o1 0
      = (Inr (Some \<lparr>price = ''$0'', isFree = True, castCount = None\<rparr>), ?C, 0)"
    by blast
  from free_tier_estimate_is_local[of ?o2 ?C 0 0 0] f2 miss fail
  have b: "fst (getServerEstimate ?C 0 0 ?o2 0) = Inr None"
    by blast
  from f1 a f2 b show ?thesis by (intro conjI)
qed

end
